theory Spec2Isabelle
  imports Complex_Main "HOL-Library.Sublist" "HOL-Library.AList" "HOL-Library.Product_Lexorder"
begin

section \<open>Values, rows and keyword arguments\<close>

text \<open>
  The data layer (database.py) is written against an object-relational mapper: a row of a
  table is an object whose attributes are read and written by name
  (\<^verbatim>\<open>hasattr\<close>, \<^verbatim>\<open>setattr\<close>, \<^verbatim>\<open>Patient(**kwargs)\<close>). A Python value is a
  \<open>pyval\<close>; a float is the rational number it denotes (arithmetic on floats is exact
  in this model: no rounding error, no NaN, no infinity). An object is a function from
  attribute names to values: \<open>self k\<close> reads attribute \<open>k\<close>, \<open>self(k := v)\<close>
  assigns it, and an attribute that was never assigned reads \<^verbatim>\<open>None\<close>, as a column
  attribute of a mapped object does. Keyword arguments are a dictionary in insertion order.
\<close>

datatype datetime = DateTime (dt_year: nat) (dt_month: nat) (dt_day: nat) (dt_second: nat)

datatype pyval =
    PNone
  | PBool bool
  | PInt int
  | PFloat rat
  | PStr string
  | PDateTime datetime

datatype error =
    TypeError
  | IntegrityError
  | OperationalError
  | InvalidRequestError

type_synonym row = "string \<Rightarrow> pyval"

type_synonym kwargs = "(string \<times> pyval) list"

text \<open>Python's truth value of an object, as \<^verbatim>\<open>if x\<close> and \<^verbatim>\<open>x and y\<close> test it.\<close>

fun truthy :: "pyval \<Rightarrow> bool" where
  "truthy PNone = False"
| "truthy (PBool b) = b"
| "truthy (PInt i) = (i \<noteq> 0)"
| "truthy (PFloat x) = (x \<noteq> 0)"
| "truthy (PStr s) = (s \<noteq> [])"
| "truthy (PDateTime d) = True"

text \<open>The number a value stands for in arithmetic and in comparisons with a number;
  \<open>None\<close> where Python raises \<^verbatim>\<open>TypeError\<close>.\<close>

fun num :: "pyval \<Rightarrow> rat option" where
  "num (PBool b) = Some (if b then 1 else 0)"
| "num (PInt i) = Some (of_int i)"
| "num (PFloat x) = Some x"
| "num PNone = None"
| "num (PStr s) = None"
| "num (PDateTime d) = None"

section \<open>Derived fields of a patient\<close>

text \<open>\<^verbatim>\<open>round(x, 1)\<close>: to one decimal place, a tie going to the even last digit.\<close>

definition round1 :: "rat \<Rightarrow> rat" where
  "round1 x =
     (let n = \<lfloor>x * 10\<rfloor>; r = x * 10 - of_int n
      in if r < 1 / 2 then of_int n / 10
         else if 1 / 2 < r then of_int (n + 1) / 10
         else if even n then of_int n / 10 else of_int (n + 1) / 10)"

text \<open>
  \<^verbatim>\<open>Patient._calculate_bmi\<close>:
  \<^verbatim>\<open>if self.weight and self.height and self.height > 0:
      bmi = self.weight / ((self.height / 100) ** 2); return round(bmi, 1)
  return None\<close>
  The conjunction is evaluated left to right and stops at the first false operand.
\<close>

definition calculate_bmi :: "row \<Rightarrow> error + pyval" where
  "calculate_bmi self =
     (if truthy (self ''weight'') \<and> truthy (self ''height'') then
        (case num (self ''height'') of
           None \<Rightarrow> Inl TypeError
         | Some h \<Rightarrow>
             if 0 < h then
               (case num (self ''weight'') of
                  None \<Rightarrow> Inl TypeError
                | Some w \<Rightarrow> Inr (PFloat (round1 (w / (h / 100) ^ 2))))
             else Inr PNone)
      else Inr PNone)"

text \<open>\<^verbatim>\<open>_bmi_category(bmi: float) -> str\<close>.\<close>

definition bmi_category :: "rat \<Rightarrow> string" where
  "bmi_category bmi =
     (if bmi < 185 / 10 then ''Underweight''
      else if bmi < 25 then ''Normal''
      else if bmi < 30 then ''Overweight''
      else ''Obese'')"

text \<open>
  The two derived entries of the dictionary built by \<^verbatim>\<open>Patient.to_dict\<close>:
  \<^verbatim>\<open>"bmi": bmi\<close> and \<^verbatim>\<open>"bmi_category": _bmi_category(bmi) if bmi else None\<close>,
  where \<^verbatim>\<open>bmi = self._calculate_bmi()\<close>.
\<close>

definition to_dict_bmi :: "row \<Rightarrow> error + (pyval \<times> pyval)" where
  "to_dict_bmi self =
     (case calculate_bmi self of
        Inl e \<Rightarrow> Inl e
      | Inr bmi \<Rightarrow>
          Inr (bmi,
               if truthy bmi then
                 (case num bmi of Some b \<Rightarrow> PStr (bmi_category b) | None \<Rightarrow> PNone)
               else PNone))"


section \<open>The schema\<close>

text \<open>
  The five mapped classes and their \<^verbatim>\<open>Column\<close> declarations. The model covers the
  mapped columns of a class: its other attributes (relationships, methods, the mapper's own
  machinery) hold no primitive value and are not names a keyword argument uses here.
\<close>

datatype table = Patients | Consultations | Symptoms | Prescriptions | DiagnosticTests

type_synonym database = "table \<Rightarrow> row list"

fun columns :: "table \<Rightarrow> string list" where
  "columns Patients =
     [''id'', ''first_name'', ''last_name'', ''email'', ''phone'', ''date_of_birth'', ''age'',
      ''gender'', ''weight'', ''height'', ''blood_type'', ''medical_history'',
      ''current_medications'', ''allergies'', ''family_history'', ''smoking_status'',
      ''alcohol_use'', ''created_at'', ''updated_at'', ''is_active'']"
| "columns Consultations =
     [''id'', ''patient_id'', ''consultation_date'', ''chief_complaint'',
      ''duration_of_symptoms'', ''severity'', ''additional_notes'', ''ai_diagnosis'',
      ''differential_diagnoses'', ''urgency_level'', ''model_used'', ''model_provider'',
      ''web_search_enabled'', ''created_at'']"
| "columns Symptoms =
     [''id'', ''consultation_id'', ''symptom_name'', ''category'', ''severity'', ''onset_date'',
      ''description'', ''created_at'']"
| "columns Prescriptions =
     [''id'', ''consultation_id'', ''medication_name'', ''medication_type'', ''dosage'',
      ''frequency'', ''duration'', ''purpose'', ''instructions'', ''warnings'', ''is_otc'',
      ''created_at'']"
| "columns DiagnosticTests =
     [''id'', ''consultation_id'', ''test_name'', ''test_type'', ''priority'', ''reason'',
      ''created_at'']"

text \<open>\<^verbatim>\<open>hasattr(obj, key)\<close> for an object of the class mapped to the table.\<close>

definition hasattr :: "table \<Rightarrow> string \<Rightarrow> bool" where
  "hasattr t key = (key \<in> set (columns t))"

text \<open>\<^verbatim>\<open>nullable=False\<close> columns (the primary key apart).\<close>

fun not_null :: "table \<Rightarrow> string list" where
  "not_null Patients = [''first_name'', ''last_name'']"
| "not_null Consultations = [''patient_id'']"
| "not_null Symptoms = [''consultation_id'', ''symptom_name'']"
| "not_null Prescriptions = [''consultation_id'', ''medication_name'']"
| "not_null DiagnosticTests = [''consultation_id'', ''test_name'']"

text \<open>\<^verbatim>\<open>unique=True\<close> columns: only \<^verbatim>\<open>Patient.email\<close>.\<close>

fun unique_columns :: "table \<Rightarrow> string list" where
  "unique_columns Patients = [''email'']"
| "unique_columns t = []"

text \<open>\<^verbatim>\<open>ForeignKey\<close> columns with the table whose \<^verbatim>\<open>id\<close> they reference.\<close>

fun foreign_key :: "table \<Rightarrow> (string \<times> table) option" where
  "foreign_key Patients = None"
| "foreign_key Consultations = Some (''patient_id'', Patients)"
| "foreign_key Symptoms = Some (''consultation_id'', Consultations)"
| "foreign_key Prescriptions = Some (''consultation_id'', Consultations)"
| "foreign_key DiagnosticTests = Some (''consultation_id'', Consultations)"

text \<open>Python-side column defaults (\<^verbatim>\<open>default=datetime.utcnow\<close>, \<^verbatim>\<open>default=True\<close>, ...).\<close>

fun defaults :: "datetime \<Rightarrow> table \<Rightarrow> kwargs" where
  "defaults now Patients =
     [(''created_at'', PDateTime now), (''updated_at'', PDateTime now), (''is_active'', PBool True)]"
| "defaults now Consultations =
     [(''consultation_date'', PDateTime now), (''web_search_enabled'', PBool False),
      (''created_at'', PDateTime now)]"
| "defaults now Symptoms = [(''created_at'', PDateTime now)]"
| "defaults now Prescriptions = [(''is_otc'', PBool False), (''created_at'', PDateTime now)]"
| "defaults now DiagnosticTests = [(''created_at'', PDateTime now)]"

text \<open>
  The mapper's default constructor, \<^verbatim>\<open>Patient(**kwargs)\<close>: every keyword must name an
  attribute of the class (\<^verbatim>\<open>TypeError\<close> otherwise) and is assigned to it.
\<close>

definition blank :: row where
  "blank = (\<lambda>k. PNone)"

definition construct :: "table \<Rightarrow> kwargs \<Rightarrow> error + row" where
  "construct t kwargs =
     (if list_all (\<lambda>(key, value). hasattr t key) kwargs
      then Inr (fold (\<lambda>(key, value) self. self(key := value)) kwargs blank)
      else Inl TypeError)"

section \<open>The backing store\<close>

text \<open>
  What the database engine does with one \<^verbatim>\<open>INSERT\<close> or \<^verbatim>\<open>UPDATE\<close>. The unit of work
  leaves a column whose attribute is \<^verbatim>\<open>None\<close> out of the \<^verbatim>\<open>INSERT\<close>, so its default
  applies; an integer primary key left out is generated, one past the largest in the table.
  The engine then checks the declared constraints and raises \<^verbatim>\<open>IntegrityError\<close> on a
  violation. Whether it checks foreign keys is a property of the backend (\<open>fk\<close>): MySQL
  and PostgreSQL do, and SQLite does only after \<^verbatim>\<open>PRAGMA foreign_keys=ON\<close> on the
  connection, which the engine of database.py (lines 37-47) never issues, so under the
  default \<^verbatim>\<open>DATABASE_URL\<close> (\<^verbatim>\<open>sqlite:///./medassist.db\<close>) it does not. Column types
  and lengths are not checked by the model.
\<close>

definition next_id :: "row list \<Rightarrow> int" where
  "next_id rows =
     fold (\<lambda>r m. case r ''id'' of PInt i \<Rightarrow> max m (i + 1) | _ \<Rightarrow> m) rows 1"

definition with_defaults :: "datetime \<Rightarrow> row list \<Rightarrow> table \<Rightarrow> row \<Rightarrow> row" where
  "with_defaults now rows t r =
     (let r1 = fold (\<lambda>(key, value) self. if self key = PNone then self(key := value) else self)
                 (defaults now t) r
      in if r1 ''id'' = PNone then r1(''id'' := PInt (next_id rows)) else r1)"

definition column_values :: "string \<Rightarrow> row list \<Rightarrow> pyval list" where
  "column_values c rows = map (\<lambda>x. x c) rows"

definition not_null_ok :: "table \<Rightarrow> row \<Rightarrow> bool" where
  "not_null_ok t r = list_all (\<lambda>c. r c \<noteq> PNone) (''id'' # not_null t)"

definition unique_ok :: "table \<Rightarrow> row \<Rightarrow> row list \<Rightarrow> bool" where
  "unique_ok t r others =
     (r ''id'' \<notin> set (column_values ''id'' others) \<and>
      list_all (\<lambda>c. r c = PNone \<or> r c \<notin> set (column_values c others)) (unique_columns t))"

definition references_ok :: "database \<Rightarrow> table \<Rightarrow> row \<Rightarrow> bool" where
  "references_ok d t r =
     (case foreign_key t of
        None \<Rightarrow> True
      | Some (c, parent) \<Rightarrow> r c = PNone \<or> r c \<in> set (column_values ''id'' (d parent)))"

definition referenced :: "database \<Rightarrow> table \<Rightarrow> pyval \<Rightarrow> bool" where
  "referenced d t v =
     list_ex (\<lambda>child. case foreign_key child of
                        None \<Rightarrow> False
                      | Some (c, parent) \<Rightarrow> parent = t \<and> v \<in> set (column_values c (d child)))
       [Patients, Consultations, Symptoms, Prescriptions, DiagnosticTests]"

definition insert_row ::
  "bool \<Rightarrow> datetime \<Rightarrow> database \<Rightarrow> table \<Rightarrow> row \<Rightarrow> error + (row \<times> database)" where
  "insert_row fk now d t r =
     (let r1 = with_defaults now (d t) t r
      in if \<not> not_null_ok t r1 then Inl IntegrityError
         else if \<not> unique_ok t r1 (d t) then Inl IntegrityError
         else if fk \<and> \<not> references_ok d t r1 then Inl IntegrityError
         else Inr (r1, d(t := d t @ [r1])))"

text \<open>\<^verbatim>\<open>UPDATE t SET ... WHERE id = old_id\<close>, writing every attribute of the object.\<close>

definition update_row :: "bool \<Rightarrow> database \<Rightarrow> table \<Rightarrow> pyval \<Rightarrow> row \<Rightarrow> error + database" where
  "update_row fk d t old_id r =
     (let others = filter (\<lambda>x. x ''id'' \<noteq> old_id) (d t)
      in if \<not> not_null_ok t r then Inl IntegrityError
         else if \<not> unique_ok t r others then Inl IntegrityError
         else if fk \<and> \<not> references_ok d t r then Inl IntegrityError
         else if fk \<and> r ''id'' \<noteq> old_id \<and> referenced d t old_id then Inl IntegrityError
         else Inr (d(t := map (\<lambda>x. if x ''id'' = old_id then r else x) (d t))))"

section \<open>The session\<close>

text \<open>
  A \<^verbatim>\<open>Session\<close> (\<^verbatim>\<open>autocommit=False, autoflush=False\<close>) over the store:
  \<open>committed\<close> is what the store holds durably and every other session sees, \<open>txn\<close>
  what the session's own transaction sees, \<open>new\<close> the objects added and not yet flushed,
  \<open>dirty\<close> the loaded objects whose attributes were assigned (with the primary key they
  were loaded under). \<open>faults\<close> is the environment: one answer per write statement
  (\<^verbatim>\<open>INSERT\<close>, \<^verbatim>\<open>UPDATE\<close>, \<^verbatim>\<open>COMMIT\<close>) in the order issued, \<open>True\<close> when the
  backend fails that statement (connection lost, timeout, cancellation); past the end of
  the list no statement fails. Reads are not failed by the model. A failed statement raises
  and the transaction is rolled back; an exception leaves the session to be closed by
  \<^verbatim>\<open>get_db\<close>, which discards whatever was not committed.
\<close>

record session =
  committed :: database
  txn :: database
  new :: "(table \<times> row) list"
  dirty :: "(table \<times> pyval \<times> row) list"
  foreign_keys :: bool
  faults :: "bool list"

definition SessionLocal :: "database \<Rightarrow> bool \<Rightarrow> bool list \<Rightarrow> session" where
  "SessionLocal d fk fs =
     \<lparr>committed = d, txn = d, new = [], dirty = [], foreign_keys = fk, faults = fs\<rparr>"

definition empty_database :: database where
  "empty_database = (\<lambda>t. [])"

definition statement_fails :: "session \<Rightarrow> bool" where
  "statement_fails db = (case faults db of [] \<Rightarrow> False | f # fs \<Rightarrow> f)"

definition advance :: "session \<Rightarrow> session" where
  "advance db = db\<lparr>faults := tl (faults db)\<rparr>"

definition rollback :: "session \<Rightarrow> session" where
  "rollback db = db\<lparr>txn := committed db, new := [], dirty := []\<rparr>"

definition add :: "session \<Rightarrow> table \<Rightarrow> row \<Rightarrow> session" where
  "add db t obj = db\<lparr>new := new db @ [(t, obj)]\<rparr>"

definition modify :: "session \<Rightarrow> table \<Rightarrow> pyval \<Rightarrow> row \<Rightarrow> session" where
  "modify db t old_id obj = db\<lparr>dirty := dirty db @ [(t, old_id, obj)]\<rparr>"

text \<open>The \<^verbatim>\<open>INSERT\<close>s of a flush, in the order the objects were added; the result lists
  the objects as stored (with generated key and defaults).\<close>

fun flush_new :: "datetime \<Rightarrow> (table \<times> row) list \<Rightarrow> session \<Rightarrow> (error + row list) \<times> session" where
  "flush_new now [] db = (Inr [], db)"
| "flush_new now ((t, obj) # objs) db =
     (if statement_fails db then (Inl OperationalError, rollback (advance db))
      else case insert_row (foreign_keys db) now (txn db) t obj of
             Inl e \<Rightarrow> (Inl e, rollback (advance db))
           | Inr (stored, d) \<Rightarrow>
               (case flush_new now objs ((advance db)\<lparr>txn := d\<rparr>) of
                  (Inl e, db') \<Rightarrow> (Inl e, db')
                | (Inr rest, db') \<Rightarrow> (Inr (stored # rest), db')))"

fun flush_dirty :: "(table \<times> pyval \<times> row) list \<Rightarrow> session \<Rightarrow> (error + unit) \<times> session" where
  "flush_dirty [] db = (Inr (), db)"
| "flush_dirty ((t, old_id, obj) # objs) db =
     (if statement_fails db then (Inl OperationalError, rollback (advance db))
      else case update_row (foreign_keys db) (txn db) t old_id obj of
             Inl e \<Rightarrow> (Inl e, rollback (advance db))
           | Inr d \<Rightarrow> flush_dirty objs ((advance db)\<lparr>txn := d\<rparr>))"

definition flush :: "datetime \<Rightarrow> session \<Rightarrow> (error + row list) \<times> session" where
  "flush now db =
     (case flush_new now (new db) (db\<lparr>new := []\<rparr>) of
        (Inl e, db1) \<Rightarrow> (Inl e, db1)
      | (Inr stored, db1) \<Rightarrow>
          (case flush_dirty (dirty db1) (db1\<lparr>dirty := []\<rparr>) of
             (Inl e, db2) \<Rightarrow> (Inl e, db2)
           | (Inr u, db2) \<Rightarrow> (Inr stored, db2)))"

text \<open>\<^verbatim>\<open>db.commit()\<close>: flush, then \<^verbatim>\<open>COMMIT\<close>; only then does the store change.\<close>

definition commit :: "datetime \<Rightarrow> session \<Rightarrow> (error + row list) \<times> session" where
  "commit now db =
     (case flush now db of
        (Inl e, db1) \<Rightarrow> (Inl e, db1)
      | (Inr stored, db1) \<Rightarrow>
          if statement_fails db1 then (Inl OperationalError, rollback (advance db1))
          else (Inr stored, (advance db1)\<lparr>committed := txn db1\<rparr>))"

text \<open>\<^verbatim>\<open>db.refresh(obj)\<close>: the row is read again under the object's primary key.\<close>

definition refresh :: "session \<Rightarrow> table \<Rightarrow> row \<Rightarrow> (error + row) \<times> session" where
  "refresh db t obj =
     (case find (\<lambda>x. x ''id'' = obj ''id'') (txn db t) of
        None \<Rightarrow> (Inl InvalidRequestError, db)
      | Some x \<Rightarrow> (Inr x, db))"

text \<open>\<^verbatim>\<open>get_db\<close>'s \<^verbatim>\<open>finally: db.close()\<close>: what remains is the committed store.\<close>

definition close :: "session \<Rightarrow> database" where
  "close db = committed db"

section \<open>Dates\<close>

text \<open>
  \<^verbatim>\<open>datetime.strptime(s, "%Y-%m-%d")\<close> of the standard library, on ASCII text: four
  digits, a hyphen, a month (\<^verbatim>\<open>1[0-2]|0[1-9]|[1-9]\<close>), a hyphen, a day
  (\<^verbatim>\<open>3[01]|[12]\d|0[1-9]|[1-9]| [1-9]\<close>) and nothing else; the year at least 1 and the
  day within the month. \<open>None\<close> stands for \<^verbatim>\<open>ValueError\<close>.
\<close>

definition digit :: "char \<Rightarrow> bool" where
  "digit c = (c \<in> set ''0123456789'')"

definition digit_value :: "char \<Rightarrow> nat" where
  "digit_value c = of_char c - 48"

definition month_field :: "string \<Rightarrow> nat option" where
  "month_field m =
     (case m of
        [a] \<Rightarrow> if a \<in> set ''123456789'' then Some (digit_value a) else None
      | [a, b] \<Rightarrow>
          if a = CHR ''1'' \<and> b \<in> set ''012'' then Some (10 + digit_value b)
          else if a = CHR ''0'' \<and> b \<in> set ''123456789'' then Some (digit_value b)
          else None
      | _ \<Rightarrow> None)"

definition day_field :: "string \<Rightarrow> nat option" where
  "day_field d =
     (case d of
        [a] \<Rightarrow> if a \<in> set ''123456789'' then Some (digit_value a) else None
      | [a, b] \<Rightarrow>
          if a = CHR ''3'' \<and> b \<in> set ''01'' then Some (30 + digit_value b)
          else if a \<in> set ''12'' \<and> digit b then Some (10 * digit_value a + digit_value b)
          else if (a = CHR ''0'' \<or> a = CHR '' '') \<and> b \<in> set ''123456789''
            then Some (digit_value b)
          else None
      | _ \<Rightarrow> None)"

definition leap_year :: "nat \<Rightarrow> bool" where
  "leap_year y = (y mod 4 = 0 \<and> (y mod 100 \<noteq> 0 \<or> y mod 400 = 0))"

definition days_in_month :: "nat \<Rightarrow> nat \<Rightarrow> nat" where
  "days_in_month y m =
     (if m = 2 then (if leap_year y then 29 else 28)
      else if m \<in> set [4, 6, 9, 11] then 30 else 31)"

definition strptime :: "string \<Rightarrow> datetime option" where
  "strptime s =
     (let ys = take 4 s; r1 = drop 5 s;
          ms = takeWhile (\<lambda>c. c \<noteq> CHR ''-'') r1; r2 = dropWhile (\<lambda>c. c \<noteq> CHR ''-'') r1
      in if length ys = 4 \<and> list_all digit ys \<and> take 1 (drop 4 s) = ''-'' \<and> r2 \<noteq> [] then
           (case (month_field ms, day_field (tl r2)) of
              (Some m, Some d) \<Rightarrow>
                (let y = fold (\<lambda>c n. 10 * n + digit_value c) ys 0
                 in if 1 \<le> y \<and> d \<le> days_in_month y m then Some (DateTime y m d 0) else None)
            | _ \<Rightarrow> None)
         else None)"

section \<open>PatientCRUD\<close>

text \<open>\<^verbatim>\<open>kwargs.get(key)\<close>.\<close>

definition kwargs_get :: "kwargs \<Rightarrow> string \<Rightarrow> pyval" where
  "kwargs_get kwargs key = (case map_of kwargs key of None \<Rightarrow> PNone | Some v \<Rightarrow> v)"

text \<open>
  The block that opens both \<^verbatim>\<open>create\<close> and \<^verbatim>\<open>update\<close> (FIX 7): a
  \<^verbatim>\<open>date_of_birth\<close> that is a string is replaced by the parsed datetime, and popped from
  the keyword arguments when \<^verbatim>\<open>strptime\<close> raises \<^verbatim>\<open>ValueError\<close>.
\<close>

definition parse_date_of_birth :: "kwargs \<Rightarrow> kwargs" where
  "parse_date_of_birth kwargs =
     (case map_of kwargs ''date_of_birth'' of
        Some (PStr s) \<Rightarrow>
          (case strptime s of
             Some dt \<Rightarrow> AList.update ''date_of_birth'' (PDateTime dt) kwargs
           | None \<Rightarrow> AList.delete ''date_of_birth'' kwargs)
      | _ \<Rightarrow> kwargs)"

definition PatientCRUD_create :: "session \<Rightarrow> datetime \<Rightarrow> kwargs \<Rightarrow> (error + row) \<times> session" where
  "PatientCRUD_create db now kwargs0 =
     (let kwargs = parse_date_of_birth kwargs0
      in case construct Patients kwargs of
           Inl e \<Rightarrow> (Inl e, db)
         | Inr patient \<Rightarrow>
             (case commit now (add db Patients patient) of
                (Inl e, db1) \<Rightarrow> (Inl e, db1)
              | (Inr [], db1) \<Rightarrow> (Inl InvalidRequestError, db1)
              | (Inr (stored # rest), db1) \<Rightarrow> refresh db1 Patients stored))"

definition PatientCRUD_get_by_id :: "session \<Rightarrow> int \<Rightarrow> row option" where
  "PatientCRUD_get_by_id db patient_id =
     find (\<lambda>p. p ''id'' = PInt patient_id \<and> p ''is_active'' = PBool True) (txn db Patients)"

definition PatientCRUD_get_by_email :: "session \<Rightarrow> string \<Rightarrow> row option" where
  "PatientCRUD_get_by_email db email = find (\<lambda>p. p ''email'' = PStr email) (txn db Patients)"

text \<open>The query that \<^verbatim>\<open>update\<close> and \<^verbatim>\<open>delete\<close> run: by id alone, active or not.\<close>

definition query_patient :: "session \<Rightarrow> int \<Rightarrow> row option" where
  "query_patient db patient_id = find (\<lambda>p. p ''id'' = PInt patient_id) (txn db Patients)"

definition PatientCRUD_count :: "session \<Rightarrow> nat" where
  "PatientCRUD_count db = length (filter (\<lambda>p. p ''is_active'' = PBool True) (txn db Patients))"

definition PatientCRUD_update ::
  "session \<Rightarrow> datetime \<Rightarrow> int \<Rightarrow> kwargs \<Rightarrow> (error + row option) \<times> session" where
  "PatientCRUD_update db now patient_id kwargs0 =
     (let kwargs = parse_date_of_birth kwargs0
      in case query_patient db patient_id of
           None \<Rightarrow> (Inr None, db)
         | Some loaded \<Rightarrow>
             (let patient =
                    fold (\<lambda>(key, value) self.
                            if hasattr Patients key \<and> value \<noteq> PNone then self(key := value)
                            else self) kwargs loaded;
                  patient = patient(''updated_at'' := PDateTime now)
              in case commit now (modify db Patients (loaded ''id'') patient) of
                   (Inl e, db1) \<Rightarrow> (Inl e, db1)
                 | (Inr stored, db1) \<Rightarrow>
                     (case refresh db1 Patients patient of
                        (Inl e, db2) \<Rightarrow> (Inl e, db2)
                      | (Inr p, db2) \<Rightarrow> (Inr (Some p), db2))))"

definition PatientCRUD_delete :: "session \<Rightarrow> datetime \<Rightarrow> int \<Rightarrow> (error + bool) \<times> session" where
  "PatientCRUD_delete db now patient_id =
     (case query_patient db patient_id of
        None \<Rightarrow> (Inr False, db)
      | Some loaded \<Rightarrow>
          (let patient = loaded(''is_active'' := PBool False);
               patient = patient(''updated_at'' := PDateTime now)
           in case commit now (modify db Patients (loaded ''id'') patient) of
                (Inl e, db1) \<Rightarrow> (Inl e, db1)
              | (Inr stored, db1) \<Rightarrow> (Inr True, db1)))"

subsection \<open>Search\<close>








section \<open>ConsultationCRUD\<close>

text \<open>
  \<^verbatim>\<open>ConsultationCRUD.create(db, patient_id, symptoms, **kwargs)\<close>. A keyword named
  \<^verbatim>\<open>patient_id\<close> would be a second value for the parameter: \<^verbatim>\<open>TypeError\<close>.
\<close>

definition Symptom :: "pyval \<Rightarrow> string \<Rightarrow> pyval \<Rightarrow> row" where
  "Symptom consultation_id symptom_name severity =
     blank(''consultation_id'' := consultation_id, ''symptom_name'' := PStr symptom_name,
           ''severity'' := severity)"

definition ConsultationCRUD_create ::
  "session \<Rightarrow> datetime \<Rightarrow> int \<Rightarrow> string list \<Rightarrow> kwargs \<Rightarrow> (error + row) \<times> session" where
  "ConsultationCRUD_create db now patient_id symptoms kwargs =
     (if ''patient_id'' \<in> set (map fst kwargs) then (Inl TypeError, db)
      else case construct Consultations ((''patient_id'', PInt patient_id) # kwargs) of
             Inl e \<Rightarrow> (Inl e, db)
           | Inr obj \<Rightarrow>
               (case flush now (add db Consultations obj) of
                  (Inl e, db1) \<Rightarrow> (Inl e, db1)
                | (Inr [], db1) \<Rightarrow> (Inl InvalidRequestError, db1)
                | (Inr (consultation # rest), db1) \<Rightarrow>
                    (let db2 = fold (\<lambda>symptom_name s.
                                       add s Symptoms
                                         (Symptom (consultation ''id'') symptom_name
                                            (kwargs_get kwargs ''severity'')))
                                 symptoms db1
                     in case commit now db2 of
                          (Inl e, db3) \<Rightarrow> (Inl e, db3)
                        | (Inr stored, db3) \<Rightarrow> refresh db3 Consultations consultation)))"

definition ConsultationCRUD_get_by_id :: "session \<Rightarrow> int \<Rightarrow> row option" where
  "ConsultationCRUD_get_by_id db consultation_id =
     find (\<lambda>c. c ''id'' = PInt consultation_id) (txn db Consultations)"

text \<open>\<^verbatim>\<open>ORDER BY consultation_date DESC\<close>: the order of two values, \<^verbatim>\<open>NULL\<close> least.\<close>

fun stamp :: "pyval \<Rightarrow> nat \<times> nat \<times> nat \<times> nat" where
  "stamp (PDateTime (DateTime y m d s)) = (Suc y, m, d, s)"
| "stamp v = (0, 0, 0, 0)"

definition newest_first :: "row list \<Rightarrow> row list" where
  "newest_first rows = rev (sort_key (\<lambda>c. stamp (c ''consultation_date'')) rows)"

definition ConsultationCRUD_get_recent :: "session \<Rightarrow> nat \<Rightarrow> row list" where
  "ConsultationCRUD_get_recent db limit = take limit (newest_first (txn db Consultations))"

definition ConsultationCRUD_get_by_patient :: "session \<Rightarrow> int \<Rightarrow> nat \<Rightarrow> nat \<Rightarrow> row list" where
  "ConsultationCRUD_get_by_patient db patient_id skip limit =
     take limit (drop skip (newest_first
       (filter (\<lambda>c. c ''patient_id'' = PInt patient_id) (txn db Consultations))))"

text \<open>\<^verbatim>\<open>add_prescription\<close> and \<^verbatim>\<open>add_diagnostic_test\<close>: one child row of the table.\<close>

definition add_child ::
  "table \<Rightarrow> session \<Rightarrow> datetime \<Rightarrow> int \<Rightarrow> kwargs \<Rightarrow> (error + row) \<times> session" where
  "add_child t db now consultation_id kwargs =
     (if ''consultation_id'' \<in> set (map fst kwargs) then (Inl TypeError, db)
      else case construct t ((''consultation_id'', PInt consultation_id) # kwargs) of
             Inl e \<Rightarrow> (Inl e, db)
           | Inr obj \<Rightarrow>
               (case commit now (add db t obj) of
                  (Inl e, db1) \<Rightarrow> (Inl e, db1)
                | (Inr [], db1) \<Rightarrow> (Inl InvalidRequestError, db1)
                | (Inr (stored # rest), db1) \<Rightarrow> refresh db1 t stored))"

definition ConsultationCRUD_add_prescription ::
  "session \<Rightarrow> datetime \<Rightarrow> int \<Rightarrow> kwargs \<Rightarrow> (error + row) \<times> session" where
  "ConsultationCRUD_add_prescription = add_child Prescriptions"

definition ConsultationCRUD_add_diagnostic_test ::
  "session \<Rightarrow> datetime \<Rightarrow> int \<Rightarrow> kwargs \<Rightarrow> (error + row) \<times> session" where
  "ConsultationCRUD_add_diagnostic_test = add_child DiagnosticTests"

section \<open>The HTTP boundary\<close>

text \<open>
  backend.py validates a request body against a schema before the store is called; a body
  that fails is answered with status 422. A body is a dictionary of primitive values; the
  validated model holds every declared field, \<^verbatim>\<open>None\<close> where the body has none, and
  \<^verbatim>\<open>model_dump(exclude_none=True)\<close> keeps the fields that are not \<^verbatim>\<open>None\<close>. The
  constraints are the \<^verbatim>\<open>Field\<close> declarations of \<^verbatim>\<open>PatientCreate\<close> and its
  \<^verbatim>\<open>validate_dob\<close>; a value is taken to have the declared type or to be rejected (the
  schema library's conversions between types are not modelled).
\<close>

datatype http_error = HTTPException nat

definition PatientCreate_fields :: "string list" where
  "PatientCreate_fields =
     [''first_name'', ''last_name'', ''email'', ''phone'', ''date_of_birth'', ''age'',
      ''gender'', ''weight'', ''height'', ''blood_type'', ''medical_history'',
      ''current_medications'', ''allergies'', ''family_history'', ''smoking_status'',
      ''alcohol_use'']"

definition validate_dob :: "pyval \<Rightarrow> bool" where
  "validate_dob v = (case v of PNone \<Rightarrow> True | PStr s \<Rightarrow> strptime s \<noteq> None | _ \<Rightarrow> False)"

definition field_ok :: "string \<Rightarrow> pyval \<Rightarrow> bool" where
  "field_ok key v =
     (if key = ''first_name'' \<or> key = ''last_name'' then
        (case v of PStr s \<Rightarrow> 1 \<le> length s | _ \<Rightarrow> False)
      else if key = ''age'' then
        (case v of PNone \<Rightarrow> True | PInt i \<Rightarrow> 0 \<le> i \<and> i \<le> 150 | _ \<Rightarrow> False)
      else if key = ''weight'' then
        (case v of PNone \<Rightarrow> True | PFloat x \<Rightarrow> 0 \<le> x \<and> x \<le> 600 | _ \<Rightarrow> False)
      else if key = ''height'' then
        (case v of PNone \<Rightarrow> True | PFloat x \<Rightarrow> 0 \<le> x \<and> x \<le> 300 | _ \<Rightarrow> False)
      else if key = ''date_of_birth'' then validate_dob v
      else (case v of PNone \<Rightarrow> True | PStr s \<Rightarrow> True | _ \<Rightarrow> False))"

definition PatientCreate :: "kwargs \<Rightarrow> kwargs option" where
  "PatientCreate body =
     (let data = map (\<lambda>key. (key, kwargs_get body key)) PatientCreate_fields
      in if list_all (\<lambda>(key, v). field_ok key v) data then Some data else None)"

definition model_dump_exclude_none :: "kwargs \<Rightarrow> kwargs" where
  "model_dump_exclude_none data = filter (\<lambda>(key, v). v \<noteq> PNone) data"

text \<open>
  \<^verbatim>\<open>POST /patients\<close>. The response body is the patient's \<^verbatim>\<open>to_dict()\<close>, built inside
  the \<^verbatim>\<open>try\<close>; the model returns the row once its derived fields have been computed.
\<close>

definition create_patient :: "session \<Rightarrow> datetime \<Rightarrow> kwargs \<Rightarrow> (http_error + row) \<times> session" where
  "create_patient db now body =
     (case PatientCreate body of
        None \<Rightarrow> (Inl (HTTPException 422), db)
      | Some data \<Rightarrow>
          (case (case kwargs_get data ''email'' of
                   PStr email \<Rightarrow> if email \<noteq> [] then PatientCRUD_get_by_email db email else None
                 | _ \<Rightarrow> None) of
             Some existing \<Rightarrow> (Inl (HTTPException 400), db)
           | None \<Rightarrow>
               (case PatientCRUD_create db now (model_dump_exclude_none data) of
                  (Inl e, db1) \<Rightarrow> (Inl (HTTPException 400), db1)
                | (Inr patient, db1) \<Rightarrow>
                    (case to_dict_bmi patient of
                       Inl e \<Rightarrow> (Inl (HTTPException 400), db1)
                     | Inr derived \<Rightarrow> (Inr patient, db1)))))"


section \<open>Reachable stores\<close>

text \<open>
  Every write of the data layer, each run in a session of its own (as \<^verbatim>\<open>get_db\<close> gives
  each request) and closed afterwards, at any time and under any faults. The store starts
  empty (\<^verbatim>\<open>init_db\<close> on a new database). Sessions run one after another.
\<close>

datatype operation =
    CreatePatient kwargs
  | UpdatePatient int kwargs
  | DeletePatient int
  | CreateConsultation int "string list" kwargs
  | AddPrescription int kwargs
  | AddDiagnosticTest int kwargs

fun run :: "operation \<Rightarrow> session \<Rightarrow> datetime \<Rightarrow> session" where
  "run (CreatePatient kwargs) db now = snd (PatientCRUD_create db now kwargs)"
| "run (UpdatePatient patient_id kwargs) db now = snd (PatientCRUD_update db now patient_id kwargs)"
| "run (DeletePatient patient_id) db now = snd (PatientCRUD_delete db now patient_id)"
| "run (CreateConsultation patient_id symptoms kwargs) db now =
     snd (ConsultationCRUD_create db now patient_id symptoms kwargs)"
| "run (AddPrescription consultation_id kwargs) db now =
     snd (ConsultationCRUD_add_prescription db now consultation_id kwargs)"
| "run (AddDiagnosticTest consultation_id kwargs) db now =
     snd (ConsultationCRUD_add_diagnostic_test db now consultation_id kwargs)"

definition perform :: "bool \<Rightarrow> database \<Rightarrow> operation \<Rightarrow> datetime \<Rightarrow> bool list \<Rightarrow> database" where
  "perform fk d operation now fs = close (run operation (SessionLocal d fk fs) now)"

inductive reachable :: "bool \<Rightarrow> database \<Rightarrow> bool" for fk :: bool where
  init: "reachable fk empty_database"
| step: "reachable fk d \<Longrightarrow> reachable fk (perform fk d operation now fs)"

text \<open>The e-mail addresses of the patient rows, \<^verbatim>\<open>NULL\<close>s left out.\<close>

definition emails :: "database \<Rightarrow> pyval list" where
  "emails d = filter (\<lambda>v. v \<noteq> PNone) (column_values ''email'' (d Patients))"

text \<open>
  What the declared constraints keep true of a store: in every table the \<^verbatim>\<open>NOT NULL\<close>
  columns are set, no two rows share a primary key, and no two rows share a value that is
  not \<^verbatim>\<open>NULL\<close> in a unique column.
\<close>

definition consistent :: "database \<Rightarrow> bool" where
  "consistent d =
     list_all (\<lambda>t. list_all (not_null_ok t) (d t) \<and>
                    distinct (column_values ''id'' (d t)) \<and>
                    list_all (\<lambda>c. distinct (filter (\<lambda>v. v \<noteq> PNone) (column_values c (d t))))
                      (unique_columns t))
       [Patients, Consultations, Symptoms, Prescriptions, DiagnosticTests]"

section \<open>Example data\<close>

text \<open>A store in which one patient has been registered, on the default backend.\<close>

definition ada :: kwargs where
  "ada = [(''first_name'', PStr ''Ada''), (''last_name'', PStr ''Lovelace''),
          (''email'', PStr ''ada@example.org''), (''phone'', PStr ''555-0100'')]"

definition store_with_ada :: database where
  "store_with_ada = perform False empty_database (CreatePatient ada) (DateTime 2026 11 3 0) []"

text \<open>The same store after a consultation of that patient with two symptoms.\<close>

definition store_with_visit :: database where
  "store_with_visit =
     perform False store_with_ada
       (CreateConsultation 1 [''cough'', ''fever''] [(''severity'', PStr ''Mild'')])
       (DateTime 2026 11 3 600) []"


section \<open>Sessions: what a flush and a commit change\<close>

lemma rollback_fields [simp]:
  "committed (rollback db) = committed db" "txn (rollback db) = committed db"
  "new (rollback db) = []" "dirty (rollback db) = []"
  "foreign_keys (rollback db) = foreign_keys db" "faults (rollback db) = faults db"
  by (simp_all add: rollback_def)

lemma advance_fields [simp]:
  "committed (advance db) = committed db" "txn (advance db) = txn db"
  "new (advance db) = new db" "dirty (advance db) = dirty db"
  "foreign_keys (advance db) = foreign_keys db" "faults (advance db) = tl (faults db)"
  by (simp_all add: advance_def)

lemma add_fields [simp]:
  "committed (add db t obj) = committed db" "txn (add db t obj) = txn db"
  "new (add db t obj) = new db @ [(t, obj)]" "dirty (add db t obj) = dirty db"
  "foreign_keys (add db t obj) = foreign_keys db" "faults (add db t obj) = faults db"
  by (simp_all add: add_def)

lemma modify_fields [simp]:
  "committed (modify db t i obj) = committed db" "txn (modify db t i obj) = txn db"
  "new (modify db t i obj) = new db" "dirty (modify db t i obj) = dirty db @ [(t, i, obj)]"
  "foreign_keys (modify db t i obj) = foreign_keys db" "faults (modify db t i obj) = faults db"
  by (simp_all add: modify_def)

lemma SessionLocal_fields [simp]:
  "committed (SessionLocal d fk fs) = d" "txn (SessionLocal d fk fs) = d"
  "new (SessionLocal d fk fs) = []" "dirty (SessionLocal d fk fs) = []"
  "foreign_keys (SessionLocal d fk fs) = fk" "faults (SessionLocal d fk fs) = fs"
  by (simp_all add: SessionLocal_def)

lemma flush_new_committed:
  "committed (snd (flush_new now objs db)) = committed db"
  by (induction now objs db rule: flush_new.induct)
     (auto split: sum.splits prod.splits)

lemma flush_new_foreign_keys:
  "foreign_keys (snd (flush_new now objs db)) = foreign_keys db"
  by (induction now objs db rule: flush_new.induct)
     (auto split: sum.splits prod.splits)

lemma flush_new_error:
  "flush_new now objs db = (Inl e, db') \<Longrightarrow> txn db' = committed db \<and> new db' = [] \<and> dirty db' = []"
  by (induction now objs db arbitrary: db' rule: flush_new.induct)
     (auto split: sum.splits prod.splits if_splits)

lemma flush_dirty_committed:
  "committed (snd (flush_dirty objs db)) = committed db"
  by (induction objs db rule: flush_dirty.induct)
     (auto split: sum.splits prod.splits)

lemma flush_dirty_foreign_keys:
  "foreign_keys (snd (flush_dirty objs db)) = foreign_keys db"
  by (induction objs db rule: flush_dirty.induct)
     (auto split: sum.splits prod.splits)

lemma flush_dirty_error:
  "flush_dirty objs db = (Inl e, db') \<Longrightarrow> txn db' = committed db \<and> new db' = [] \<and> dirty db' = []"
  by (induction objs db arbitrary: db' rule: flush_dirty.induct)
     (auto split: sum.splits prod.splits if_splits)


lemma flush_cases:
  obtains (new_failed) e db1 where
      "flush_new now (new db) (db\<lparr>new := []\<rparr>) = (Inl e, db1)" "flush now db = (Inl e, db1)"
  | (dirty_failed) stored db1 e db2 where
      "flush_new now (new db) (db\<lparr>new := []\<rparr>) = (Inr stored, db1)"
      "flush_dirty (dirty db1) (db1\<lparr>dirty := []\<rparr>) = (Inl e, db2)"
      "flush now db = (Inl e, db2)"
  | (flushed) stored db1 db2 where
      "flush_new now (new db) (db\<lparr>new := []\<rparr>) = (Inr stored, db1)"
      "flush_dirty (dirty db1) (db1\<lparr>dirty := []\<rparr>) = (Inr (), db2)"
      "flush now db = (Inr stored, db2)"
proof -
  obtain r1 db1 where f1: "flush_new now (new db) (db\<lparr>new := []\<rparr>) = (r1, db1)"
    by (cases "flush_new now (new db) (db\<lparr>new := []\<rparr>)")
  show thesis
  proof (cases r1)
    case (Inl e)
    with f1 have "flush now db = (Inl e, db1)" by (simp add: flush_def)
    with f1 Inl show thesis using new_failed by simp
  next
    case (Inr stored)
    obtain r2 db2 where f2: "flush_dirty (dirty db1) (db1\<lparr>dirty := []\<rparr>) = (r2, db2)"
      by (cases "flush_dirty (dirty db1) (db1\<lparr>dirty := []\<rparr>)")
    show thesis
    proof (cases r2)
      case (Inl e)
      with f1 f2 Inr have "flush now db = (Inl e, db2)" by (simp add: flush_def)
      with f1 f2 Inr Inl show thesis using dirty_failed by simp
    next
      case (Inr u)
      with f1 f2 \<open>r1 = Inr stored\<close> have "flush now db = (Inr stored, db2)" by (simp add: flush_def)
      with f1 f2 \<open>r1 = Inr stored\<close> Inr show thesis using flushed by simp
    qed
  qed
qed

lemma flush_committed: "committed (snd (flush now db)) = committed db"
proof (cases rule: flush_cases [of now db])
  case (new_failed e db1)
  then show ?thesis using flush_new_committed [of now "new db" "db\<lparr>new := []\<rparr>"] by simp
next
  case (dirty_failed stored db1 e db2)
  then show ?thesis
    using flush_new_committed [of now "new db" "db\<lparr>new := []\<rparr>"]
      flush_dirty_committed [of "dirty db1" "db1\<lparr>dirty := []\<rparr>"] by simp
next
  case (flushed stored db1 db2)
  then show ?thesis
    using flush_new_committed [of now "new db" "db\<lparr>new := []\<rparr>"]
      flush_dirty_committed [of "dirty db1" "db1\<lparr>dirty := []\<rparr>"] by simp
qed

lemma flush_foreign_keys: "foreign_keys (snd (flush now db)) = foreign_keys db"
proof (cases rule: flush_cases [of now db])
  case (new_failed e db1)
  then show ?thesis using flush_new_foreign_keys [of now "new db" "db\<lparr>new := []\<rparr>"] by simp
next
  case (dirty_failed stored db1 e db2)
  then show ?thesis
    using flush_new_foreign_keys [of now "new db" "db\<lparr>new := []\<rparr>"]
      flush_dirty_foreign_keys [of "dirty db1" "db1\<lparr>dirty := []\<rparr>"] by simp
next
  case (flushed stored db1 db2)
  then show ?thesis
    using flush_new_foreign_keys [of now "new db" "db\<lparr>new := []\<rparr>"]
      flush_dirty_foreign_keys [of "dirty db1" "db1\<lparr>dirty := []\<rparr>"] by simp
qed

lemma commit_cases:
  obtains (failed) e db1 where "commit now db = (Inl e, db1)" "committed db1 = committed db"
  | (committed) stored db1 db2 where
      "flush now db = (Inr stored, db1)" "\<not> statement_fails db1"
      "commit now db = (Inr stored, db2)" "db2 = (advance db1)\<lparr>committed := txn db1\<rparr>"
proof -
  obtain r1 db1 where f1: "flush now db = (r1, db1)" by (cases "flush now db")
  have c1: "committed db1 = committed db" using flush_committed [of now db] f1 by simp
  show thesis
  proof (cases r1)
    case (Inl e)
    with f1 have "commit now db = (Inl e, db1)" by (simp add: commit_def)
    then show thesis using failed c1 by simp
  next
    case (Inr stored)
    show thesis
    proof (cases "statement_fails db1")
      case True
      with f1 Inr have "commit now db = (Inl OperationalError, rollback (advance db1))"
        by (simp add: commit_def)
      then show thesis using failed [of OperationalError "rollback (advance db1)"] c1 by simp
    next
      case False
      with f1 Inr have "commit now db = (Inr stored, (advance db1)\<lparr>committed := txn db1\<rparr>)"
        by (simp add: commit_def)
      with f1 Inr False show thesis using committed by simp
    qed
  qed
qed

section \<open>Derived fields: body mass index\<close>









section \<open>A fresh session that writes one object\<close>

lemma SessionLocal_statement_fails:
  "statement_fails (SessionLocal d fk fs) = (case fs of [] \<Rightarrow> False | f # r \<Rightarrow> f)"
  by (simp add: statement_fails_def)

lemma commit_add_fresh:
  "commit now (add (SessionLocal d fk fs) t obj) =
     (if statement_fails (SessionLocal d fk fs) then (Inl OperationalError, SessionLocal d fk (tl fs))
      else case insert_row fk now d t obj of
             Inl e \<Rightarrow> (Inl e, SessionLocal d fk (tl fs))
           | Inr (stored, d1) \<Rightarrow>
               if statement_fails (SessionLocal d fk (tl fs))
               then (Inl OperationalError, SessionLocal d fk (tl (tl fs)))
               else (Inr [stored], SessionLocal d1 fk (tl (tl fs))))"
  by (simp add: commit_def flush_def add_def SessionLocal_def statement_fails_def advance_def
      rollback_def split: sum.splits prod.splits)

lemma commit_modify_fresh:
  "commit now (modify (SessionLocal d fk fs) t old_id obj) =
     (if statement_fails (SessionLocal d fk fs) then (Inl OperationalError, SessionLocal d fk (tl fs))
      else case update_row fk d t old_id obj of
             Inl e \<Rightarrow> (Inl e, SessionLocal d fk (tl fs))
           | Inr d1 \<Rightarrow>
               if statement_fails (SessionLocal d fk (tl fs))
               then (Inl OperationalError, SessionLocal d fk (tl (tl fs)))
               else (Inr [], SessionLocal d1 fk (tl (tl fs))))"
  by (simp add: commit_def flush_def modify_def SessionLocal_def statement_fails_def advance_def
      rollback_def split: sum.splits prod.splits)

lemma flush_add_fresh:
  "flush now (add (SessionLocal d fk fs) t obj) =
     (if statement_fails (SessionLocal d fk fs) then (Inl OperationalError, SessionLocal d fk (tl fs))
      else case insert_row fk now d t obj of
             Inl e \<Rightarrow> (Inl e, SessionLocal d fk (tl fs))
           | Inr (stored, d1) \<Rightarrow> (Inr [stored], (SessionLocal d fk (tl fs))\<lparr>txn := d1\<rparr>))"
  by (simp add: flush_def add_def SessionLocal_def statement_fails_def advance_def
      rollback_def split: sum.splits prod.splits)


section \<open>Rows as inserted\<close>

lemma fold_default_keep:
  "r c \<noteq> PNone \<Longrightarrow>
   fold (\<lambda>(key, value) self. if self key = PNone then self(key := value) else self) kvs r c = r c"
  by (induction kvs arbitrary: r) (auto split: prod.splits)

lemma fold_default_other:
  "c \<notin> fst ` set kvs \<Longrightarrow>
   fold (\<lambda>(key, value) self. if self key = PNone then self(key := value) else self) kvs r c = r c"
  by (induction kvs arbitrary: r) (auto split: prod.splits)

lemma with_defaults_keep: "r c \<noteq> PNone \<Longrightarrow> with_defaults now rows t r c = r c"
  by (auto simp: with_defaults_def Let_def fold_default_keep)

lemma with_defaults_other:
  "c \<noteq> ''id'' \<Longrightarrow> c \<notin> fst ` set (defaults now t) \<Longrightarrow> with_defaults now rows t r c = r c"
  by (auto simp: with_defaults_def Let_def fold_default_other)

lemma insert_row_Inr:
  assumes "insert_row fk now d t r = Inr (r1, d1)"
  shows "r1 = with_defaults now (d t) t r" and "d1 = d(t := d t @ [r1])"
    and "not_null_ok t r1" and "unique_ok t r1 (d t)" and "fk \<Longrightarrow> references_ok d t r1"
  using assms by (auto simp: insert_row_def Let_def split: if_splits)

lemma insert_row_Inl: "insert_row fk now d t r = Inl e \<Longrightarrow> e = IntegrityError"
  by (auto simp: insert_row_def Let_def split: if_splits)

lemma find_appended:
  "r1 ''id'' \<notin> set (column_values ''id'' rows) \<Longrightarrow>
   find (\<lambda>x. x ''id'' = r1 ''id'') (rows @ [r1]) = Some r1"
  by (induction rows) (auto simp: column_values_def)

lemma fold_assign_other:
  "c \<notin> fst ` set kwargs \<Longrightarrow> fold (\<lambda>(key, value) self. self(key := value)) kwargs r c = r c"
  by (induction kwargs arbitrary: r) (auto split: prod.splits)

lemma fold_assign_distinct:
  "distinct (map fst kwargs) \<Longrightarrow>
   fold (\<lambda>(key, value) self. self(key := value)) kwargs r c =
     (case map_of kwargs c of None \<Rightarrow> r c | Some v \<Rightarrow> v)"
proof (induction kwargs arbitrary: r)
  case Nil
  then show ?case by simp
next
  case (Cons kv kwargs)
  obtain k v where kv: "kv = (k, v)" by (cases kv)
  show ?case
  proof (cases "c = k")
    case True
    then have "map_of kwargs c = None" using Cons.prems kv
      by (simp add: map_of_eq_None_iff)
    then show ?thesis using Cons kv True by simp
  next
    case False
    then show ?thesis using Cons kv by simp
  qed
qed

section \<open>PatientCRUD.create in a fresh session\<close>

lemma PatientCRUD_create_fresh:
  assumes "PatientCRUD_create (SessionLocal d fk fs) now kwargs = (Inr p, db')"
  shows "\<exists>patient. construct Patients (parse_date_of_birth kwargs) = Inr patient \<and>
           p = with_defaults now (d Patients) Patients patient \<and>
           unique_ok Patients p (d Patients) \<and> not_null_ok Patients p \<and>
           db' = SessionLocal (d(Patients := d Patients @ [p])) fk (tl (tl fs))"
proof -
  obtain patient where c: "construct Patients (parse_date_of_birth kwargs) = Inr patient"
    using assms by (auto simp: PatientCRUD_create_def Let_def split: sum.splits)
  have ok: "\<not> statement_fails (SessionLocal d fk fs)"
    using assms c by (auto simp: PatientCRUD_create_def Let_def commit_add_fresh)
  obtain r1 d1 where i: "insert_row fk now d Patients patient = Inr (r1, d1)"
    using assms c ok by (auto simp: PatientCRUD_create_def Let_def commit_add_fresh split: sum.splits)
  have ok2: "\<not> statement_fails (SessionLocal d fk (tl fs))"
    using assms c ok i by (auto simp: PatientCRUD_create_def Let_def commit_add_fresh split: if_splits)
  note f = insert_row_Inr [OF i]
  have u: "r1 ''id'' \<notin> set (column_values ''id'' (d Patients))"
    using f(4) by (simp add: unique_ok_def)
  have "PatientCRUD_create (SessionLocal d fk fs) now kwargs =
          refresh (SessionLocal d1 fk (tl (tl fs))) Patients r1"
    using c ok i ok2 by (simp add: PatientCRUD_create_def Let_def commit_add_fresh)
  also have "\<dots> = (Inr r1, SessionLocal d1 fk (tl (tl fs)))"
    using find_appended [of r1 "d Patients"] u f(2) by (simp add: refresh_def)
  finally have "p = r1" and "db' = SessionLocal d1 fk (tl (tl fs))" using assms by simp_all
  then show ?thesis using c f by auto
qed


section \<open>C1: a malformed birth date\<close>

lemma parse_date_of_birth_malformed:
  "map_of kwargs ''date_of_birth'' = Some (PStr s) \<Longrightarrow> strptime s = None \<Longrightarrow>
   parse_date_of_birth kwargs = AList.delete ''date_of_birth'' kwargs"
  by (simp add: parse_date_of_birth_def)

lemma parse_date_of_birth_absent:
  "map_of kwargs ''date_of_birth'' = None \<Longrightarrow> parse_date_of_birth kwargs = kwargs"
  by (simp add: parse_date_of_birth_def)

lemma construct_without:
  "construct t kwargs = Inr obj \<Longrightarrow> c \<notin> fst ` set kwargs \<Longrightarrow> obj c = PNone"
  by (auto simp: construct_def blank_def fold_assign_other split: if_splits)

lemma PatientCreate_malformed:
  "kwargs_get body ''date_of_birth'' = PStr s \<Longrightarrow> strptime s = None \<Longrightarrow> PatientCreate body = None"
  by (simp add: PatientCreate_def PatientCreate_fields_def field_ok_def validate_dob_def)

text \<open>
  C1 (amended). A call of \<open>PatientCRUD.create\<close> whose birth date is a string that
  \<open>strptime\<close> does not accept behaves exactly as the same call without a birth date:
  the store drops the date and, when the call succeeds, has persisted the record with a null
  \<open>date_of_birth\<close>. The client error comes from the HTTP schema: \<open>create_patient\<close>
  answers such a body with status 422 before the store is called, and persists nothing.
\<close>

theorem create_malformed_date_of_birth:
  assumes "map_of kwargs ''date_of_birth'' = Some (PStr s)" and "strptime s = None"
  shows "PatientCRUD_create db now kwargs =
           PatientCRUD_create db now (AList.delete ''date_of_birth'' kwargs) \<and>
         (\<forall>p db'. PatientCRUD_create (SessionLocal d fk fs) now kwargs = (Inr p, db') \<longrightarrow>
            p ''date_of_birth'' = PNone \<and> close db' = d(Patients := d Patients @ [p])) \<and>
         create_patient db now kwargs = (Inl (HTTPException 422), db)"
proof -
  have p: "parse_date_of_birth kwargs = AList.delete ''date_of_birth'' kwargs"
    using assms by (rule parse_date_of_birth_malformed)
  have "map_of (AList.delete ''date_of_birth'' kwargs) ''date_of_birth'' = None"
    by (simp add: AList.delete_conv')
  then have q: "parse_date_of_birth (AList.delete ''date_of_birth'' kwargs)
                  = AList.delete ''date_of_birth'' kwargs"
    by (rule parse_date_of_birth_absent)
  have same: "PatientCRUD_create db now kwargs =
           PatientCRUD_create db now (AList.delete ''date_of_birth'' kwargs)"
    by (simp add: PatientCRUD_create_def p q)
  have stored: "p ''date_of_birth'' = PNone \<and> close db' = d(Patients := d Patients @ [p])"
    if h: "PatientCRUD_create (SessionLocal d fk fs) now kwargs = (Inr p, db')" for p db'
  proof -
    obtain patient where c: "construct Patients (AList.delete ''date_of_birth'' kwargs) = Inr patient"
      and r: "p = with_defaults now (d Patients) Patients patient"
      and s: "db' = SessionLocal (d(Patients := d Patients @ [p])) fk (tl (tl fs))"
      using PatientCRUD_create_fresh [OF h] p by auto
    have "''date_of_birth'' \<notin> fst ` set (AList.delete ''date_of_birth'' kwargs)"
      by (auto simp: AList.delete_eq)
    then have "patient ''date_of_birth'' = PNone" using construct_without [OF c] by simp
    then have "p ''date_of_birth'' = PNone"
      using r by (simp add: with_defaults_other)
    then show ?thesis using s by (simp add: close_def)
  qed
  have "kwargs_get kwargs ''date_of_birth'' = PStr s" using assms by (simp add: kwargs_get_def)
  then have "PatientCreate kwargs = None" using assms(2) by (rule PatientCreate_malformed)
  then have http: "create_patient db now kwargs = (Inl (HTTPException 422), db)"
    by (simp add: create_patient_def)
  show ?thesis using same stored http by blast
qed


lemma strptime_slashes: "strptime ''31/12/1990'' = None"
  by (simp add: strptime_def digit_def)

text \<open>The theorem at a registration of Ada Lovelace, born "31/12/1990", in an empty store.\<close>

theorem create_malformed_date_of_birth_witness:
  "map_of [(''first_name'', PStr ''Ada''), (''last_name'', PStr ''Lovelace''),
           (''date_of_birth'', PStr ''31/12/1990'')] ''date_of_birth'' = Some (PStr ''31/12/1990'') \<and>
   strptime ''31/12/1990'' = None \<and>
   \<not> isl (fst (PatientCRUD_create (SessionLocal empty_database False []) (DateTime 2026 11 3 0)
     [(''first_name'', PStr ''Ada''), (''last_name'', PStr ''Lovelace''),
      (''date_of_birth'', PStr ''31/12/1990'')])) \<and>
   create_patient (SessionLocal empty_database False []) (DateTime 2026 11 3 0)
     [(''first_name'', PStr ''Ada''), (''last_name'', PStr ''Lovelace''),
      (''date_of_birth'', PStr ''31/12/1990'')]
     = (Inl (HTTPException 422), SessionLocal empty_database False [])"
proof -
  have h1: "map_of [(''first_name'', PStr ''Ada''), (''last_name'', PStr ''Lovelace''),
           (''date_of_birth'', PStr ''31/12/1990'')] ''date_of_birth'' = Some (PStr ''31/12/1990'')"
    by simp
  note t = create_malformed_date_of_birth [OF h1 strptime_slashes,
      of "SessionLocal empty_database False []" "DateTime 2026 11 3 0"]
  have e: "\<not> isl (fst (PatientCRUD_create (SessionLocal empty_database False []) (DateTime 2026 11 3 0)
     (AList.delete ''date_of_birth'' [(''first_name'', PStr ''Ada''), (''last_name'', PStr ''Lovelace''),
      (''date_of_birth'', PStr ''31/12/1990'')])))"
    by (simp add: PatientCRUD_create_def parse_date_of_birth_def construct_def hasattr_def
        commit_add_fresh SessionLocal_statement_fails insert_row_def with_defaults_def
        not_null_ok_def unique_ok_def column_values_def next_id_def refresh_def blank_def
        empty_database_def Let_def AList.delete_eq)
  show ?thesis using h1 strptime_slashes t e by simp
qed

text \<open>
  C1 as stated fails: handed the birth date "31/12/1990", \<open>PatientCRUD.create\<close> raises
  nothing and the store then holds the patient, with no birth date.
\<close>

theorem create_malformed_date_of_birth_counterexample:
  "\<not> isl (fst (PatientCRUD_create (SessionLocal empty_database False []) (DateTime 2026 11 3 0)
     [(''first_name'', PStr ''Ada''), (''last_name'', PStr ''Lovelace''),
      (''date_of_birth'', PStr ''31/12/1990'')])) \<and>
   map (\<lambda>p. (p ''id'', p ''first_name'', p ''last_name'', p ''date_of_birth''))
     (close (snd (PatientCRUD_create (SessionLocal empty_database False []) (DateTime 2026 11 3 0)
       [(''first_name'', PStr ''Ada''), (''last_name'', PStr ''Lovelace''),
        (''date_of_birth'', PStr ''31/12/1990'')])) Patients)
     = [(PInt 1, PStr ''Ada'', PStr ''Lovelace'', PNone)]"
  by (simp add: PatientCRUD_create_def parse_date_of_birth_def strptime_slashes construct_def
      hasattr_def commit_add_fresh SessionLocal_statement_fails insert_row_def with_defaults_def
      not_null_ok_def unique_ok_def column_values_def next_id_def refresh_def blank_def
      empty_database_def Let_def AList.delete_eq close_def)

section \<open>The constraints are kept\<close>

lemma consistent_iff:
  "consistent d \<longleftrightarrow>
     (\<forall>t. list_all (not_null_ok t) (d t) \<and> distinct (column_values ''id'' (d t)) \<and>
          (\<forall>c \<in> set (unique_columns t).
             distinct (filter (\<lambda>v. v \<noteq> PNone) (column_values c (d t)))))"
proof -
  have all: "(\<forall>t. P t) \<longleftrightarrow> list_all P [Patients, Consultations, Symptoms, Prescriptions, DiagnosticTests]"
    for P
  proof
    assume "\<forall>t. P t" then show "list_all P [Patients, Consultations, Symptoms, Prescriptions, DiagnosticTests]"
      by simp
  next
    assume a: "list_all P [Patients, Consultations, Symptoms, Prescriptions, DiagnosticTests]"
    show "\<forall>t. P t"
    proof
      fix t show "P t" using a by (cases t) simp_all
    qed
  qed
  show ?thesis unfolding consistent_def all [symmetric] by (simp add: list_all_iff)
qed

lemma consistent_empty: "consistent empty_database"
  by (simp add: consistent_iff empty_database_def column_values_def)

lemma consistent_insert:
  assumes "consistent d" and "insert_row fk now d t r = Inr (r1, d1)"
  shows "consistent d1"
proof -
  note f = insert_row_Inr [OF assms(2)]
  show ?thesis
    unfolding consistent_iff
  proof (intro allI conjI ballI)
    fix u show "list_all (not_null_ok u) (d1 u)"
      using assms(1) f(2,3) by (simp add: consistent_iff)
  next
    fix u show "distinct (column_values ''id'' (d1 u))"
      using assms(1) f(2,4) by (auto simp: consistent_iff unique_ok_def column_values_def)
  next
    fix u c assume c: "c \<in> set (unique_columns u)"
    show "distinct (filter (\<lambda>v. v \<noteq> PNone) (column_values c (d1 u)))"
    proof (cases "u = t")
      case True
      have "r1 c = PNone \<or> r1 c \<notin> set (column_values c (d t))"
        using f(4) c True by (auto simp: unique_ok_def list_all_iff)
      moreover have "distinct (filter (\<lambda>v. v \<noteq> PNone) (column_values c (d t)))"
        using assms(1) c True by (auto simp: consistent_iff)
      ultimately show ?thesis using f(2) True by (auto simp: column_values_def)
    next
      case False
      then show ?thesis using assms(1) c f(2) by (auto simp: consistent_iff)
    qed
  qed
qed

lemma replace_distinct:
  assumes "distinct (map k rows)"
    and "distinct (filter P (map g rows))"
    and "\<not> P (g r) \<or> g r \<notin> g ` {x \<in> set rows. k x \<noteq> old}"
  shows "distinct (filter P (map g (map (\<lambda>x. if k x = old then r else x) rows)))"
  using assms
proof (induction rows)
  case Nil
  then show ?case by simp
next
  case (Cons x xs)
  let ?f = "\<lambda>x. if k x = old then r else x"
  have dk: "k x \<notin> k ` set xs" "distinct (map k xs)" using Cons.prems(1) by auto
  have dg: "distinct (filter P (map g xs))" using Cons.prems(2) by (simp split: if_splits)
  have gx: "P (g x) \<Longrightarrow> g x \<notin> g ` set xs"
  proof
    assume p: "P (g x)" and "g x \<in> g ` set xs"
    then obtain y where y: "y \<in> set xs" "g y = g x" by auto
    then have "g x \<in> set (filter P (map g xs))" using p by (simp add: image_iff) (metis)
    then show False using Cons.prems(2) p by simp
  qed
  have hr: "\<not> P (g r) \<or> g r \<notin> g ` {x \<in> set xs. k x \<noteq> old}" using Cons.prems(3) by auto
  have ih: "distinct (filter P (map g (map ?f xs)))" using Cons.IH dk(2) dg hr by blast
  show ?case
  proof (cases "k x = old")
    case True
    then have "\<forall>y \<in> set xs. k y \<noteq> old" using dk(1) by (auto simp: image_iff)
    then have same: "map ?f xs = xs" and all: "{y \<in> set xs. k y \<noteq> old} = set xs"
      by (auto simp: map_idI)
    have "P (g r) \<Longrightarrow> g r \<notin> g ` set xs" using hr all by auto
    then show ?thesis using True same dg by (auto simp: image_iff)
  next
    case False
    have "g x \<notin> set (map g (map ?f xs))" if p: "P (g x)"
    proof
      assume "g x \<in> set (map g (map ?f xs))"
      then obtain y where y: "y \<in> set xs" "g (?f y) = g x" by (auto simp del: if_image_distrib)
      show False
      proof (cases "k y = old")
        case True
        then have "g r = g x" using y by simp
        moreover have "g r \<notin> g ` {z \<in> set (x # xs). k z \<noteq> old}"
          using Cons.prems(3) p \<open>g r = g x\<close> by auto
        ultimately show False using False by auto
      next
        case False
        then have "g y = g x" using y by simp
        then show False using gx [OF p] y(1) by (auto simp: image_iff)
      qed
    qed
    then show ?thesis using False ih by simp
  qed
qed

lemma update_row_Inr:
  assumes "update_row fk d t old_id r = Inr d1"
  shows "d1 = d(t := map (\<lambda>x. if x ''id'' = old_id then r else x) (d t))"
    and "not_null_ok t r" and "unique_ok t r (filter (\<lambda>x. x ''id'' \<noteq> old_id) (d t))"
  using assms by (auto simp: update_row_def Let_def split: if_splits)

lemma update_row_Inl: "update_row fk d t old_id r = Inl e \<Longrightarrow> e = IntegrityError"
  by (auto simp: update_row_def Let_def split: if_splits)

lemma consistent_update:
  assumes "consistent d" and "update_row fk d t old_id r = Inr d1"
  shows "consistent d1"
proof -
  note f = update_row_Inr [OF assms(2)]
  have ids: "distinct (map (\<lambda>x. x ''id'') (d t))"
    using assms(1) by (simp add: consistent_iff column_values_def)
  show ?thesis
    unfolding consistent_iff
  proof (intro allI conjI ballI)
    fix u show "list_all (not_null_ok u) (d1 u)"
      using assms(1) f(1,2) by (auto simp: consistent_iff list_all_iff)
  next
    fix u show "distinct (column_values ''id'' (d1 u))"
    proof (cases "u = t")
      case True
      have "distinct (filter (\<lambda>v. True) (map (\<lambda>x. x ''id'')
              (map (\<lambda>x. if x ''id'' = old_id then r else x) (d t))))"
        using ids f(3) by (intro replace_distinct) (auto simp: unique_ok_def column_values_def)
      then show ?thesis using True f(1) by (simp add: column_values_def)
    next
      case False
      then show ?thesis using assms(1) f(1) by (simp add: consistent_iff)
    qed
  next
    fix u c assume c: "c \<in> set (unique_columns u)"
    show "distinct (filter (\<lambda>v. v \<noteq> PNone) (column_values c (d1 u)))"
    proof (cases "u = t")
      case True
      have "\<not> r c \<noteq> PNone \<or> r c \<notin> (\<lambda>x. x c) ` {x \<in> set (d t). x ''id'' \<noteq> old_id}"
        using f(3) c True by (auto simp: unique_ok_def list_all_iff column_values_def)
      moreover have "distinct (filter (\<lambda>v. v \<noteq> PNone) (map (\<lambda>x. x c) (d t)))"
        using assms(1) c True by (auto simp: consistent_iff column_values_def)
      ultimately have "distinct (filter (\<lambda>v. v \<noteq> PNone) (map (\<lambda>x. x c)
              (map (\<lambda>x. if x ''id'' = old_id then r else x) (d t))))"
        using ids by (intro replace_distinct) auto
      then show ?thesis using True f(1) by (simp add: column_values_def)
    next
      case False
      then show ?thesis using assms(1) c f(1) by (auto simp: consistent_iff)
    qed
  qed
qed

section \<open>Every reachable store is consistent\<close>

lemma flush_new_consistent:
  "consistent (committed db) \<Longrightarrow> consistent (txn db) \<Longrightarrow>
   consistent (txn (snd (flush_new now objs db)))"
proof (induction now objs db rule: flush_new.induct)
  case (1 now db)
  then show ?case by simp
next
  case (2 now t obj objs db)
  show ?case
  proof (cases "statement_fails db")
    case True
    then show ?thesis using 2 by simp
  next
    case False
    show ?thesis
    proof (cases "insert_row (foreign_keys db) now (txn db) t obj")
      case (Inl e)
      then show ?thesis using False 2 by simp
    next
      case (Inr sd)
      obtain stored d where sd: "sd = (stored, d)" by (cases sd)
      have c: "consistent d" using consistent_insert [OF 2(3)] Inr sd by simp
      have ih: "consistent (txn (snd (flush_new now objs ((advance db)\<lparr>txn := d\<rparr>))))"
        using 2(1) [OF False Inr sd [symmetric]] 2(2) c by simp
      obtain res db' where r: "flush_new now objs ((advance db)\<lparr>txn := d\<rparr>) = (res, db')"
        by (cases "flush_new now objs ((advance db)\<lparr>txn := d\<rparr>)")
      have "snd (flush_new now ((t, obj) # objs) db) = db'"
        using False Inr sd r by (cases res) simp_all
      then show ?thesis using ih r by simp
    qed
  qed
qed

lemma flush_dirty_consistent:
  "consistent (committed db) \<Longrightarrow> consistent (txn db) \<Longrightarrow>
   consistent (txn (snd (flush_dirty objs db)))"
proof (induction objs db rule: flush_dirty.induct)
  case (1 db)
  then show ?case by simp
next
  case (2 t old_id obj objs db)
  show ?case
  proof (cases "statement_fails db")
    case True
    then show ?thesis using 2 by simp
  next
    case False
    show ?thesis
    proof (cases "update_row (foreign_keys db) (txn db) t old_id obj")
      case (Inl e)
      then show ?thesis using False 2 by simp
    next
      case (Inr d)
      have c: "consistent d" using consistent_update [OF 2(3)] Inr by simp
      have "consistent (txn (snd (flush_dirty objs ((advance db)\<lparr>txn := d\<rparr>))))"
        using 2(1) [OF False Inr] 2(2) c by simp
      then show ?thesis using False Inr by simp
    qed
  qed
qed


lemma flush_consistent:
  assumes "consistent (committed db)" and "consistent (txn db)"
  shows "consistent (txn (snd (flush now db)))"
proof -
  have n: "consistent (txn (snd (flush_new now (new db) (db\<lparr>new := []\<rparr>))))"
    using flush_new_consistent [of "db\<lparr>new := []\<rparr>" now "new db"] assms by simp
  have nc: "committed (snd (flush_new now (new db) (db\<lparr>new := []\<rparr>))) = committed db"
    using flush_new_committed [of now "new db" "db\<lparr>new := []\<rparr>"] by simp
  show ?thesis
  proof (cases rule: flush_cases [of now db])
    case (new_failed e db1)
    then show ?thesis using n by simp
  next
    case (dirty_failed stored db1 e db2)
    then show ?thesis
      using flush_dirty_consistent [of "db1\<lparr>dirty := []\<rparr>" "dirty db1"] n nc assms by simp
  next
    case (flushed stored db1 db2)
    then show ?thesis
      using flush_dirty_consistent [of "db1\<lparr>dirty := []\<rparr>" "dirty db1"] n nc assms by simp
  qed
qed

lemma commit_consistent:
  assumes "consistent (committed db)" and "consistent (txn db)"
  shows "consistent (committed (snd (commit now db)))"
proof (cases rule: commit_cases [of now db])
  case (failed e db1)
  then show ?thesis using assms by simp
next
  case (committed stored db1 db2)
  then show ?thesis using flush_consistent [OF assms, of now] by simp
qed

lemma refresh_session: "snd (refresh db t obj) = db"
  by (simp add: refresh_def split: option.splits)

lemma fold_add_fields:
  "committed (fold (\<lambda>x s. add s t (f x)) xs db) = committed db"
  "txn (fold (\<lambda>x s. add s t (f x)) xs db) = txn db"
  "new (fold (\<lambda>x s. add s t (f x)) xs db) = new db @ map (\<lambda>x. (t, f x)) xs"
  "dirty (fold (\<lambda>x s. add s t (f x)) xs db) = dirty db"
  "foreign_keys (fold (\<lambda>x s. add s t (f x)) xs db) = foreign_keys db"
  "faults (fold (\<lambda>x s. add s t (f x)) xs db) = faults db"
  by (induction xs arbitrary: db) simp_all

text \<open>What a call that adds one object and commits leaves behind.\<close>

lemma commit_then_refresh:
  "snd (case commit now db of
          (Inl e, db1) \<Rightarrow> (Inl e, db1)
        | (Inr [], db1) \<Rightarrow> (Inl InvalidRequestError, db1)
        | (Inr (stored # rest), db1) \<Rightarrow> refresh db1 t stored) = snd (commit now db)"
proof -
  obtain res db1 where c: "commit now db = (res, db1)" by (cases "commit now db")
  show ?thesis
  proof (cases res)
    case (Inl e)
    then show ?thesis using c by simp
  next
    case (Inr stored)
    then show ?thesis using c by (cases stored) (simp_all add: refresh_session)
  qed
qed

lemma PatientCRUD_create_session:
  "snd (PatientCRUD_create db now kwargs) = db \<or>
   (\<exists>patient. snd (PatientCRUD_create db now kwargs) = snd (commit now (add db Patients patient)))"
proof (cases "construct Patients (parse_date_of_birth kwargs)")
  case (Inl e)
  then show ?thesis by (simp add: PatientCRUD_create_def)
next
  case (Inr patient)
  then have "snd (PatientCRUD_create db now kwargs) = snd (commit now (add db Patients patient))"
    by (simp add: PatientCRUD_create_def commit_then_refresh)
  then show ?thesis by blast
qed

lemma add_child_session:
  "snd (add_child t db now consultation_id kwargs) = db \<or>
   (\<exists>obj. snd (add_child t db now consultation_id kwargs) = snd (commit now (add db t obj)))"
proof (cases "''consultation_id'' \<in> set (map fst kwargs)")
  case True
  then show ?thesis by (simp add: add_child_def)
next
  case False
  show ?thesis
  proof (cases "construct t ((''consultation_id'', PInt consultation_id) # kwargs)")
    case (Inl e)
    then show ?thesis using False by (simp add: add_child_def)
  next
    case (Inr obj)
    then have "snd (add_child t db now consultation_id kwargs) = snd (commit now (add db t obj))"
      using False by (simp add: add_child_def commit_then_refresh)
    then show ?thesis by blast
  qed
qed


lemma PatientCRUD_update_session:
  "snd (PatientCRUD_update db now patient_id kwargs) = db \<or>
   (\<exists>old_id obj. snd (PatientCRUD_update db now patient_id kwargs)
      = snd (commit now (modify db Patients old_id obj)))"
proof (cases "query_patient db patient_id")
  case None
  then show ?thesis by (simp add: PatientCRUD_update_def)
next
  case (Some loaded)
  define obj where "obj = (fold (\<lambda>(key, value) self.
                            if hasattr Patients key \<and> value \<noteq> PNone then self(key := value)
                            else self) (parse_date_of_birth kwargs) loaded)(''updated_at'' := PDateTime now)"
  obtain res db1 where c: "commit now (modify db Patients (loaded ''id'') obj) = (res, db1)"
    by (cases "commit now (modify db Patients (loaded ''id'') obj)")
  have "snd (PatientCRUD_update db now patient_id kwargs) = db1"
  proof (cases res)
    case (Inl e)
    then show ?thesis using Some c by (simp add: PatientCRUD_update_def Let_def obj_def)
  next
    case (Inr stored)
    obtain r2 db2 where r: "refresh db1 Patients obj = (r2, db2)"
      by (cases "refresh db1 Patients obj")
    then have "db2 = db1" using refresh_session [of db1 Patients obj] by simp
    then show ?thesis using Some c Inr r
      by (cases r2) (simp_all add: PatientCRUD_update_def Let_def obj_def)
  qed
  then show ?thesis using c by (metis snd_conv)
qed

lemma PatientCRUD_delete_session:
  "snd (PatientCRUD_delete db now patient_id) = db \<or>
   (\<exists>old_id obj. snd (PatientCRUD_delete db now patient_id)
      = snd (commit now (modify db Patients old_id obj)))"
proof (cases "query_patient db patient_id")
  case None
  then show ?thesis by (simp add: PatientCRUD_delete_def)
next
  case (Some loaded)
  define obj where "obj = loaded(''is_active'' := PBool False, ''updated_at'' := PDateTime now)"
  obtain res db1 where c: "commit now (modify db Patients (loaded ''id'') obj) = (res, db1)"
    by (cases "commit now (modify db Patients (loaded ''id'') obj)")
  have "snd (PatientCRUD_delete db now patient_id) = db1"
    using Some c by (cases res) (simp_all add: PatientCRUD_delete_def Let_def obj_def)
  then show ?thesis using c by (metis snd_conv)
qed

lemma ConsultationCRUD_create_consistent:
  assumes "consistent (committed db)" and "consistent (txn db)"
  shows "consistent (committed (snd (ConsultationCRUD_create db now patient_id symptoms kwargs)))"
proof (cases "''patient_id'' \<in> set (map fst kwargs)")
  case True
  then show ?thesis using assms by (simp add: ConsultationCRUD_create_def)
next
  case False
  show ?thesis
  proof (cases "construct Consultations ((''patient_id'', PInt patient_id) # kwargs)")
    case (Inl e)
    then show ?thesis using False assms by (simp add: ConsultationCRUD_create_def)
  next
    case (Inr obj)
    obtain res db1 where f: "flush now (add db Consultations obj) = (res, db1)"
      by (cases "flush now (add db Consultations obj)")
    have c1: "consistent (committed db1)"
      using flush_committed [of now "add db Consultations obj"] f assms by simp
    have t1: "consistent (txn db1)"
      using flush_consistent [of "add db Consultations obj" now] f assms by simp
    show ?thesis
    proof (cases res)
      case (Inl e)
      then show ?thesis using False Inr f c1 by (simp add: ConsultationCRUD_create_def)
    next
      case stored: (Inr stored)
      show ?thesis
      proof (cases stored)
        case Nil
        then show ?thesis using False Inr f stored c1 by (simp add: ConsultationCRUD_create_def)
      next
        case (Cons consultation rest)
        define db2 where "db2 = fold (\<lambda>symptom_name s.
                                       add s Symptoms
                                         (Symptom (consultation ''id'') symptom_name
                                            (kwargs_get kwargs ''severity'')))
                                 symptoms db1"
        have "consistent (committed db2)" "consistent (txn db2)"
          using c1 t1 by (simp_all add: db2_def fold_add_fields)
        then have c3: "consistent (committed (snd (commit now db2)))" by (rule commit_consistent)
        obtain r3 db3 where c: "commit now db2 = (r3, db3)" by (cases "commit now db2")
        have "snd (ConsultationCRUD_create db now patient_id symptoms kwargs) = db3"
          using False Inr f stored Cons c
          by (cases r3) (simp_all add: ConsultationCRUD_create_def Let_def db2_def [symmetric] refresh_session)
        then show ?thesis using c3 c by simp
      qed
    qed
  qed
qed

lemma perform_consistent:
  assumes "consistent d"
  shows "consistent (perform fk d operation now fs)"
proof -
  let ?db = "SessionLocal d fk fs"
  have s: "consistent (committed ?db)" "consistent (txn ?db)" using assms by simp_all
  have one: "consistent (committed (snd (commit now (add ?db t obj))))" for t obj
    using commit_consistent [of "add ?db t obj" now] s by simp
  have mod: "consistent (committed (snd (commit now (modify ?db t i obj))))" for t i obj
    using commit_consistent [of "modify ?db t i obj" now] s by simp
  show ?thesis
  proof (cases operation)
    case (CreatePatient kwargs)
    then show ?thesis
      using PatientCRUD_create_session [of ?db now kwargs] one s
      by (auto simp: perform_def close_def)
  next
    case (UpdatePatient patient_id kwargs)
    then show ?thesis
      using PatientCRUD_update_session [of ?db now patient_id kwargs] mod s
      by (auto simp: perform_def close_def)
  next
    case (DeletePatient patient_id)
    then show ?thesis
      using PatientCRUD_delete_session [of ?db now patient_id] mod s
      by (auto simp: perform_def close_def)
  next
    case (CreateConsultation patient_id symptoms kwargs)
    then show ?thesis
      using ConsultationCRUD_create_consistent [OF s, of now patient_id symptoms kwargs]
      by (simp add: perform_def close_def)
  next
    case (AddPrescription consultation_id kwargs)
    then show ?thesis
      using add_child_session [of Prescriptions ?db now consultation_id kwargs] one s
      by (auto simp: perform_def close_def ConsultationCRUD_add_prescription_def)
  next
    case (AddDiagnosticTest consultation_id kwargs)
    then show ?thesis
      using add_child_session [of DiagnosticTests ?db now consultation_id kwargs] one s
      by (auto simp: perform_def close_def ConsultationCRUD_add_diagnostic_test_def)
  qed
qed

lemma reachable_consistent: "reachable fk d \<Longrightarrow> consistent d"
  by (induction rule: reachable.induct) (simp_all add: consistent_empty perform_consistent)

section \<open>C4: one patient per e-mail address\<close>

lemma parse_date_of_birth_map_of:
  "k \<noteq> ''date_of_birth'' \<Longrightarrow> map_of (parse_date_of_birth kwargs) k = map_of kwargs k"
  by (auto simp: parse_date_of_birth_def AList.update_conv' AList.delete_conv'
      split: option.splits pyval.splits)

lemma parse_date_of_birth_distinct:
  "distinct (map fst kwargs) \<Longrightarrow> distinct (map fst (parse_date_of_birth kwargs))"
  by (auto simp: parse_date_of_birth_def AList.distinct_update AList.distinct_delete
      split: option.splits pyval.splits)

lemma construct_distinct:
  "construct t kwargs = Inr obj \<Longrightarrow> distinct (map fst kwargs) \<Longrightarrow> obj c = kwargs_get kwargs c"
  by (auto simp: construct_def kwargs_get_def blank_def fold_assign_distinct
      split: if_splits option.splits)

lemma insert_row_duplicate:
  assumes "c \<in> set (unique_columns t)" and "r c \<noteq> PNone"
    and "r c \<in> set (column_values c (d t))"
  shows "insert_row fk now d t r = Inl IntegrityError"
proof (cases "insert_row fk now d t r")
  case (Inl e)
  then show ?thesis using insert_row_Inl by blast
next
  case (Inr rd)
  obtain r1 d1 where rd: "rd = (r1, d1)" by (cases rd)
  note f = insert_row_Inr [of fk now d t r r1 d1]
  have "r1 c = r c" using f(1) Inr rd assms(2) by (simp add: with_defaults_keep)
  moreover have "r1 c = PNone \<or> r1 c \<notin> set (column_values c (d t))"
    using f(4) Inr rd assms(1) by (auto simp: unique_ok_def list_all_iff)
  ultimately show ?thesis using assms by simp
qed

lemma PatientCRUD_create_duplicate:
  assumes "PStr e \<in> set (emails d)" and "distinct (map fst kwargs)"
    and "kwargs_get kwargs ''email'' = PStr e"
  shows "\<exists>err. PatientCRUD_create (SessionLocal d fk fs) now kwargs
                 = (Inl err, if err = TypeError then SessionLocal d fk fs else SessionLocal d fk (tl fs)) \<and>
               err \<in> {TypeError, IntegrityError, OperationalError} \<and>
               (err = TypeError \<longleftrightarrow> \<not> list_all (\<lambda>(key, value). hasattr Patients key) (parse_date_of_birth kwargs)) \<and>
               (err = OperationalError \<longrightarrow> fs \<noteq> [])"
proof (cases "construct Patients (parse_date_of_birth kwargs)")
  case (Inl err)
  then have "err = TypeError" "\<not> list_all (\<lambda>(key, value). hasattr Patients key) (parse_date_of_birth kwargs)"
    by (auto simp: construct_def split: if_splits)
  then show ?thesis using Inl by (simp add: PatientCRUD_create_def)
next
  case (Inr patient)
  then have keys: "list_all (\<lambda>(key, value). hasattr Patients key) (parse_date_of_birth kwargs)"
    by (auto simp: construct_def split: if_splits)
  have "kwargs_get (parse_date_of_birth kwargs) ''email'' = PStr e"
    using assms(3) by (simp add: kwargs_get_def parse_date_of_birth_map_of)
  then have pe: "patient ''email'' = PStr e"
    using construct_distinct [OF Inr parse_date_of_birth_distinct [OF assms(2)]] by simp
  have "PStr e \<in> set (column_values ''email'' (d Patients))" using assms(1) by (simp add: emails_def)
  then have i: "insert_row fk now d Patients patient = Inl IntegrityError"
    using pe by (intro insert_row_duplicate [where c = "''email''"]) simp_all
  show ?thesis
  proof (cases "statement_fails (SessionLocal d fk fs)")
    case True
    then have "fs \<noteq> []" by (auto simp: SessionLocal_statement_fails)
    then show ?thesis using Inr True keys
      by (simp add: PatientCRUD_create_def commit_add_fresh)
  next
    case False
    then show ?thesis using Inr i keys
      by (simp add: PatientCRUD_create_def commit_add_fresh)
  qed
qed


lemma kwargs_get_fields:
  "kwargs_get (map (\<lambda>key. (key, f key)) keys) k = (if k \<in> set keys then f k else PNone)"
  by (simp add: kwargs_get_def map_of_map_restrict restrict_map_def)

lemma kwargs_get_exclude_none:
  "distinct (map fst data) \<Longrightarrow> kwargs_get (model_dump_exclude_none data) k = kwargs_get data k"
proof (induction data)
  case Nil
  then show ?case by (simp add: model_dump_exclude_none_def)
next
  case (Cons kv data)
  obtain k' v where kv: "kv = (k', v)" by (cases kv)
  have ih: "kwargs_get (model_dump_exclude_none data) k = kwargs_get data k"
    using Cons by simp
  show ?case
  proof (cases "k' = k")
    case True
    then have "map_of data k = None" using Cons.prems kv by (simp add: map_of_eq_None_iff)
    then have "kwargs_get data k = PNone" by (simp add: kwargs_get_def)
    then show ?thesis using ih kv True
      by (auto simp: kwargs_get_def model_dump_exclude_none_def)
  next
    case False
    then show ?thesis using ih kv
      by (auto simp: kwargs_get_def model_dump_exclude_none_def)
  qed
qed

lemma PatientCreate_Some:
  "PatientCreate body = Some data \<Longrightarrow>
   data = map (\<lambda>key. (key, kwargs_get body key)) PatientCreate_fields"
  by (auto simp: PatientCreate_def Let_def split: if_splits)

lemma PatientCreate_fields_distinct: "distinct PatientCreate_fields"
  by (simp add: PatientCreate_fields_def)

lemma create_patient_duplicate:
  assumes "PStr e \<in> set (emails d)" and "kwargs_get body ''email'' = PStr e"
  shows "\<exists>code db'. create_patient (SessionLocal d fk fs) now body = (Inl (HTTPException code), db') \<and>
           close db' = d \<and> (code = 400 \<or> code = 422) \<and> (code = 422 \<longleftrightarrow> PatientCreate body = None)"
proof (cases "PatientCreate body")
  case None
  then show ?thesis by (simp add: create_patient_def close_def)
next
  case (Some data)
  note data = PatientCreate_Some [OF Some]
  have keys: "map fst data = PatientCreate_fields" by (simp add: data comp_def)
  have "''email'' \<in> set PatientCreate_fields" by (simp add: PatientCreate_fields_def)
  then have em: "kwargs_get data ''email'' = PStr e"
    using assms(2) by (simp add: data kwargs_get_fields)
  have reg: "PStr e \<in> set (column_values ''email'' (d Patients))"
    using assms(1) by (simp add: emails_def)
  show ?thesis
  proof (cases "truthy (PStr e)")
    case True
    have "find (\<lambda>p. p ''email'' = PStr e) (d Patients) \<noteq> None"
      using reg by (auto simp: find_None_iff column_values_def)
    then obtain existing where "find (\<lambda>p. p ''email'' = PStr e) (d Patients) = Some existing"
      by blast
    then show ?thesis using Some em True
      by (simp add: create_patient_def close_def PatientCRUD_get_by_email_def)
  next
    case False
    have dk: "distinct (map fst (model_dump_exclude_none data))"
      using PatientCreate_fields_distinct keys
      by (simp add: model_dump_exclude_none_def distinct_map_filter)
    have ek: "kwargs_get (model_dump_exclude_none data) ''email'' = PStr e"
      using em keys PatientCreate_fields_distinct by (simp add: kwargs_get_exclude_none)
    obtain err db' where c: "PatientCRUD_create (SessionLocal d fk fs) now (model_dump_exclude_none data)
        = (Inl err, db')" and cl: "close db' = d"
      using PatientCRUD_create_duplicate [OF assms(1) dk ek, of fk fs now]
      by (auto simp: close_def split: if_splits)
    show ?thesis using Some em False c cl by (simp add: create_patient_def)
  qed
qed

text \<open>
  C4. In every reachable store no two patient rows, active or not, carry the same e-mail
  address. Creating a patient with an address that a row already carries is rejected and
  the store is left as it was: \<open>PatientCRUD.create\<close> raises (\<open>IntegrityError\<close> from
  the unique constraint, unless a keyword names no column or the backend fails first), and
  \<open>create_patient\<close> answers with status 400 (422 when the body is invalid anyway).
\<close>

theorem email_unique:
  assumes "reachable fk d"
  shows "distinct (emails d) \<and>
         (\<forall>e kwargs now fs.
            PStr e \<in> set (emails d) \<and> distinct (map fst kwargs) \<and>
            kwargs_get kwargs ''email'' = PStr e \<longrightarrow>
              (\<exists>err db'. PatientCRUD_create (SessionLocal d fk fs) now kwargs = (Inl err, db') \<and>
                 close db' = d \<and> err \<in> {TypeError, IntegrityError, OperationalError} \<and>
                 (err = OperationalError \<longrightarrow> fs \<noteq> []) \<and>
                 (err = TypeError \<longrightarrow>
                    \<not> list_all (\<lambda>(key, value). hasattr Patients key) (parse_date_of_birth kwargs))) \<and>
              (\<exists>code db'. create_patient (SessionLocal d fk fs) now kwargs
                   = (Inl (HTTPException code), db') \<and>
                 close db' = d \<and> (code = 400 \<or> code = 422) \<and>
                 (code = 422 \<longleftrightarrow> PatientCreate kwargs = None)))"
proof (intro conjI allI impI)
  show "distinct (emails d)"
    using reachable_consistent [OF assms] by (simp add: consistent_iff emails_def)
next
  fix e kwargs now fs
  assume a: "PStr e \<in> set (emails d) \<and> distinct (map fst kwargs) \<and>
            kwargs_get kwargs ''email'' = PStr e"
  obtain err where "PatientCRUD_create (SessionLocal d fk fs) now kwargs
                 = (Inl err, if err = TypeError then SessionLocal d fk fs else SessionLocal d fk (tl fs))"
    and "err \<in> {TypeError, IntegrityError, OperationalError}"
    and "err = TypeError \<longleftrightarrow> \<not> list_all (\<lambda>(key, value). hasattr Patients key) (parse_date_of_birth kwargs)"
    and "err = OperationalError \<longrightarrow> fs \<noteq> []"
    using PatientCRUD_create_duplicate [of e d kwargs fk fs now] a by blast
  then show "\<exists>err db'. PatientCRUD_create (SessionLocal d fk fs) now kwargs = (Inl err, db') \<and>
                 close db' = d \<and> err \<in> {TypeError, IntegrityError, OperationalError} \<and>
                 (err = OperationalError \<longrightarrow> fs \<noteq> []) \<and>
                 (err = TypeError \<longrightarrow>
                    \<not> list_all (\<lambda>(key, value). hasattr Patients key) (parse_date_of_birth kwargs))"
    by (intro exI [of _ err] exI [of _ "if err = TypeError then SessionLocal d fk fs else SessionLocal d fk (tl fs)"])
       (simp add: close_def)
  show "\<exists>code db'. create_patient (SessionLocal d fk fs) now kwargs
                   = (Inl (HTTPException code), db') \<and>
                 close db' = d \<and> (code = 400 \<or> code = 422) \<and>
                 (code = 422 \<longleftrightarrow> PatientCreate kwargs = None)"
    using create_patient_duplicate [of e d kwargs fk fs now] a by blast
qed


lemmas store_eval =
  perform_def close_def PatientCRUD_create_def parse_date_of_birth_def construct_def hasattr_def
  commit_add_fresh commit_modify_fresh SessionLocal_statement_fails insert_row_def update_row_def
  with_defaults_def not_null_ok_def unique_ok_def references_ok_def column_values_def next_id_def
  refresh_def blank_def empty_database_def Let_def

lemma store_with_ada_reachable: "reachable False store_with_ada"
  unfolding store_with_ada_def by (rule reachable.step [OF reachable.init])

lemma store_with_ada_rows:
  "map (\<lambda>p. (p ''id'', p ''first_name'', p ''email'', p ''is_active'')) (store_with_ada Patients)
     = [(PInt 1, PStr ''Ada'', PStr ''ada@example.org'', PBool True)]"
  by (simp add: store_with_ada_def ada_def store_eval)

text \<open>The theorem at the store holding Ada, and a second registration under her address.\<close>

theorem email_unique_witness:
  "reachable False store_with_ada \<and>
   PStr ''ada@example.org'' \<in> set (emails store_with_ada) \<and>
   distinct (map fst [(''first_name'', PStr ''Grace''), (''last_name'', PStr ''Hopper''),
                      (''email'', PStr ''ada@example.org'')]) \<and>
   kwargs_get [(''first_name'', PStr ''Grace''), (''last_name'', PStr ''Hopper''),
               (''email'', PStr ''ada@example.org'')] ''email'' = PStr ''ada@example.org'' \<and>
   distinct (emails store_with_ada) \<and>
   fst (PatientCRUD_create (SessionLocal store_with_ada False []) (DateTime 2026 11 4 0)
          [(''first_name'', PStr ''Grace''), (''last_name'', PStr ''Hopper''),
           (''email'', PStr ''ada@example.org'')]) = Inl IntegrityError \<and>
   close (snd (PatientCRUD_create (SessionLocal store_with_ada False []) (DateTime 2026 11 4 0)
          [(''first_name'', PStr ''Grace''), (''last_name'', PStr ''Hopper''),
           (''email'', PStr ''ada@example.org'')])) = store_with_ada \<and>
   fst (create_patient (SessionLocal store_with_ada False []) (DateTime 2026 11 4 0)
          [(''first_name'', PStr ''Grace''), (''last_name'', PStr ''Hopper''),
           (''email'', PStr ''ada@example.org'')]) = Inl (HTTPException 400)"
proof -
  let ?grace = "[(''first_name'', PStr ''Grace''), (''last_name'', PStr ''Hopper''),
                 (''email'', PStr ''ada@example.org'')]"
  have em: "emails store_with_ada = [PStr ''ada@example.org'']"
    using store_with_ada_rows by (auto simp: emails_def column_values_def)
  have h: "PStr ''ada@example.org'' \<in> set (emails store_with_ada) \<and> distinct (map fst ?grace) \<and>
           kwargs_get ?grace ''email'' = PStr ''ada@example.org''"
    by (simp add: em kwargs_get_def)
  have keys: "list_all (\<lambda>(key, value). hasattr Patients key) (parse_date_of_birth ?grace)"
    by (simp add: parse_date_of_birth_def hasattr_def)
  have valid: "PatientCreate ?grace \<noteq> None"
    by (simp add: PatientCreate_def PatientCreate_fields_def field_ok_def validate_dob_def
        kwargs_get_def)
  note t = email_unique [OF store_with_ada_reachable]
  from t have d: "distinct (emails store_with_ada)" by blast
  from t h obtain err db' where
      c: "PatientCRUD_create (SessionLocal store_with_ada False []) (DateTime 2026 11 4 0) ?grace
            = (Inl err, db')"
      and cl: "close db' = store_with_ada"
      and e: "err \<in> {TypeError, IntegrityError, OperationalError}"
        "err = OperationalError \<longrightarrow> ([] :: bool list) \<noteq> []"
        "err = TypeError \<longrightarrow> \<not> list_all (\<lambda>(key, value). hasattr Patients key) (parse_date_of_birth ?grace)"
    by blast
  have err: "err = IntegrityError" using e keys by auto
  from t h obtain code db'' where
      p: "create_patient (SessionLocal store_with_ada False []) (DateTime 2026 11 4 0) ?grace
            = (Inl (HTTPException code), db'')"
      and code: "code = 400 \<or> code = 422" "code = 422 \<longleftrightarrow> PatientCreate ?grace = None"
    by blast
  have "code = 400" using code valid by auto
  then show ?thesis using store_with_ada_reachable h d c cl err p by simp
qed

section \<open>PatientCRUD.delete in a fresh session\<close>

lemma distinct_filter_map_neq:
  "distinct (filter P (map g rows)) \<Longrightarrow> distinct (map k rows) \<Longrightarrow> P (g x) \<Longrightarrow>
   x \<in> set rows \<Longrightarrow> y \<in> set rows \<Longrightarrow> g x = g y \<Longrightarrow> k x = k y"
proof (induction rows)
  case Nil
  then show ?case by simp
next
  case (Cons z zs)
  have d: "distinct (filter P (map g zs))" using Cons.prems(1) by (simp split: if_splits)
  have dk: "distinct (map k zs)" using Cons.prems(2) by simp
  have out: "g w \<noteq> g z" if "P (g z)" "w \<in> set zs" for w
  proof
    assume "g w = g z"
    then have "g z \<in> set (filter P (map g zs))" using that by (simp add: image_iff) metis
    then show False using Cons.prems(1) that by simp
  qed
  show ?case
  proof (cases "x = z")
    case True
    show ?thesis
    proof (cases "y = z")
      case True
      then show ?thesis using \<open>x = z\<close> by simp
    next
      case False
      then have "y \<in> set zs" using Cons.prems(5) by simp
      then have "g y \<noteq> g z" using out Cons.prems(3) True by simp
      then show ?thesis using Cons.prems(6) True by simp
    qed
  next
    case False
    then have xz: "x \<in> set zs" using Cons.prems(4) by simp
    show ?thesis
    proof (cases "y = z")
      case True
      then have "P (g z)" using Cons.prems(3,6) by simp
      then have "g x \<noteq> g z" using out xz by simp
      then show ?thesis using Cons.prems(6) True by simp
    next
      case False
      then have "y \<in> set zs" using Cons.prems(5) by simp
      then show ?thesis using Cons.IH [OF d dk Cons.prems(3) xz _ Cons.prems(6)] by simp
    qed
  qed
qed

lemma consistent_same_id:
  assumes "consistent d" and "x \<in> set (d t)" and "y \<in> set (d t)" and "x ''id'' = y ''id''"
  shows "x = y"
proof -
  have "distinct (map (\<lambda>r. r ''id'') (d t))"
    using assms(1) by (simp add: consistent_iff column_values_def)
  then have "inj_on (\<lambda>r. r ''id'') (set (d t))" by (simp add: distinct_map)
  then show ?thesis using assms(2-4) by (auto dest: inj_onD)
qed

lemma consistent_unique_value:
  assumes "consistent d" and "c \<in> set (unique_columns t)"
    and "x \<in> set (d t)" and "y \<in> set (d t)" and "x c = y c" and "x c \<noteq> PNone"
  shows "x ''id'' = y ''id''"
proof -
  have a: "distinct (filter (\<lambda>v. v \<noteq> PNone) (map (\<lambda>r. r c) (d t)))"
    and b: "distinct (map (\<lambda>r. r ''id'') (d t))"
    using assms(1,2) by (simp_all add: consistent_iff column_values_def)
  show ?thesis
    using distinct_filter_map_neq [where P = "\<lambda>v. v \<noteq> PNone" and g = "\<lambda>r. r c"
        and k = "\<lambda>r. r ''id''" and rows = "d t" and x = x and y = y] a b assms(3-6)
    by simp
qed

text \<open>An update that leaves the key, the names and the address of a stored row alone passes
  every constraint.\<close>

lemma update_row_same_keys:
  assumes "consistent d" and "loaded \<in> set (d Patients)"
    and "obj ''id'' = loaded ''id''" and "obj ''first_name'' = loaded ''first_name''"
    and "obj ''last_name'' = loaded ''last_name''" and "obj ''email'' = loaded ''email''"
  shows "update_row fk d Patients (loaded ''id'') obj =
           Inr (d(Patients := map (\<lambda>x. if x ''id'' = loaded ''id'' then obj else x) (d Patients)))"
proof -
  have "not_null_ok Patients loaded"
    using assms(1,2) by (auto simp: consistent_iff list_all_iff)
  then have nn: "not_null_ok Patients obj" using assms(3-5) by (simp add: not_null_ok_def)
  let ?others = "filter (\<lambda>x. x ''id'' \<noteq> loaded ''id'') (d Patients)"
  have id: "obj ''id'' \<notin> set (column_values ''id'' ?others)"
    using assms(3) by (auto simp: column_values_def)
  have em: "obj ''email'' = PNone \<or> obj ''email'' \<notin> set (column_values ''email'' ?others)"
  proof (cases "obj ''email'' = PNone")
    case True
    then show ?thesis by simp
  next
    case False
    have "obj ''email'' \<notin> set (column_values ''email'' ?others)"
    proof
      assume "obj ''email'' \<in> set (column_values ''email'' ?others)"
      then obtain y where y: "y \<in> set (d Patients)" "y ''id'' \<noteq> loaded ''id''"
        "y ''email'' = loaded ''email''"
        using assms(6) by (auto simp: column_values_def)
      have "loaded ''id'' = y ''id''"
        using consistent_unique_value [OF assms(1) _ assms(2) y(1)] y(3) False assms(6) by simp
      then show False using y(2) by simp
    qed
    then show ?thesis by simp
  qed
  have u: "unique_ok Patients obj ?others" using id em by (simp add: unique_ok_def)
  show ?thesis using nn u assms(3) by (simp add: update_row_def references_ok_def)
qed

lemma find_id_Some:
  "find (\<lambda>p. p ''id'' = v) rows = Some loaded \<Longrightarrow> loaded \<in> set rows \<and> loaded ''id'' = v"
  by (auto simp: find_Some_iff)

lemma replace_own_row:
  assumes "consistent d" and "loaded \<in> set (d t)"
  shows "map (\<lambda>x. if x ''id'' = loaded ''id'' then f loaded else x) (d t) =
         map (\<lambda>x. if x ''id'' = loaded ''id'' then f x else x) (d t)"
proof (rule map_cong)
  fix x assume "x \<in> set (d t)"
  then show "(if x ''id'' = loaded ''id'' then f loaded else x) =
             (if x ''id'' = loaded ''id'' then f x else x)"
    using consistent_same_id [OF assms(1) _ assms(2), of x] by auto
qed simp

lemma PatientCRUD_delete_fresh:
  assumes "consistent d"
  shows "PatientCRUD_delete (SessionLocal d fk fs) now patient_id =
     (case find (\<lambda>p. p ''id'' = PInt patient_id) (d Patients) of
        None \<Rightarrow> (Inr False, SessionLocal d fk fs)
      | Some loaded \<Rightarrow>
          if statement_fails (SessionLocal d fk fs)
            then (Inl OperationalError, SessionLocal d fk (tl fs))
          else if statement_fails (SessionLocal d fk (tl fs))
            then (Inl OperationalError, SessionLocal d fk (tl (tl fs)))
          else (Inr True,
                SessionLocal
                  (d(Patients :=
                       map (\<lambda>x. if x ''id'' = PInt patient_id
                                 then x(''is_active'' := PBool False, ''updated_at'' := PDateTime now)
                                 else x) (d Patients)))
                  fk (tl (tl fs))))"
proof (cases "find (\<lambda>p. p ''id'' = PInt patient_id) (d Patients)")
  case None
  then show ?thesis by (simp add: PatientCRUD_delete_def query_patient_def)
next
  case (Some loaded)
  note l = find_id_Some [OF Some]
  let ?obj = "loaded(''is_active'' := PBool False, ''updated_at'' := PDateTime now)"
  have u: "update_row fk d Patients (loaded ''id'') ?obj =
           Inr (d(Patients := map (\<lambda>x. if x ''id'' = loaded ''id'' then ?obj else x) (d Patients)))"
    using assms l by (intro update_row_same_keys) simp_all
  have m: "map (\<lambda>x. if x ''id'' = loaded ''id'' then ?obj else x) (d Patients) =
           map (\<lambda>x. if x ''id'' = loaded ''id''
                     then x(''is_active'' := PBool False, ''updated_at'' := PDateTime now)
                     else x) (d Patients)"
    using replace_own_row [OF assms, of loaded Patients
        "\<lambda>x. x(''is_active'' := PBool False, ''updated_at'' := PDateTime now)"] l by simp
  have lid: "loaded ''id'' = PInt patient_id" using l by simp
  note u' = u [unfolded m, unfolded lid]
  show ?thesis
    using Some u' lid
    by (simp add: PatientCRUD_delete_def query_patient_def Let_def commit_modify_fresh)
qed

section \<open>C5 and C6: deactivating a patient\<close>

lemmas session_eval =
  ConsultationCRUD_create_def flush_add_fresh commit_def flush_def statement_fails_def
  advance_def rollback_def add_def SessionLocal_def Symptom_def kwargs_get_def

lemma store_with_visit_reachable: "reachable False store_with_visit"
  unfolding store_with_visit_def by (rule reachable.step [OF store_with_ada_reachable])

lemma store_with_visit_rows:
  "map (\<lambda>p. (p ''id'', p ''first_name'', p ''email'', p ''is_active'')) (store_with_visit Patients)
     = [(PInt 1, PStr ''Ada'', PStr ''ada@example.org'', PBool True)]"
  "map (\<lambda>c. (c ''id'', c ''patient_id'', c ''severity'')) (store_with_visit Consultations)
     = [(PInt 1, PInt 1, PStr ''Mild'')]"
  "map (\<lambda>s. (s ''id'', s ''consultation_id'', s ''symptom_name'', s ''severity''))
     (store_with_visit Symptoms)
     = [(PInt 1, PInt 1, PStr ''cough'', PStr ''Mild''), (PInt 2, PInt 1, PStr ''fever'', PStr ''Mild'')]"
  by (simp_all add: store_with_visit_def store_with_ada_def ada_def store_eval session_eval)


lemma find_deactivated:
  "find (\<lambda>p. p ''id'' = v)
     (map (\<lambda>x. if x ''id'' = w
               then x(''is_active'' := PBool False, ''updated_at'' := PDateTime now) else x) rows)
   = map_option (\<lambda>x. if x ''id'' = w
               then x(''is_active'' := PBool False, ''updated_at'' := PDateTime now) else x)
       (find (\<lambda>p. p ''id'' = v) rows)"
  by (induction rows) auto

lemma get_by_id_deactivated:
  "find (\<lambda>p. p ''id'' = w \<and> p ''is_active'' = PBool True)
     (map (\<lambda>x. if x ''id'' = w
               then x(''is_active'' := PBool False, ''updated_at'' := PDateTime now) else x) rows)
   = None"
  by (induction rows) auto

lemma PatientCRUD_delete_not_found:
  "fst (PatientCRUD_delete db now patient_id) = Inr False \<longleftrightarrow> query_patient db patient_id = None"
proof (cases "query_patient db patient_id")
  case None
  then show ?thesis by (simp add: PatientCRUD_delete_def)
next
  case (Some loaded)
  obtain res db1 where c: "commit now (modify db Patients (loaded ''id'')
      (loaded(''is_active'' := PBool False, ''updated_at'' := PDateTime now))) = (res, db1)"
    by (cases "commit now (modify db Patients (loaded ''id'')
      (loaded(''is_active'' := PBool False, ''updated_at'' := PDateTime now)))")
  show ?thesis using Some c by (cases res) (simp_all add: PatientCRUD_delete_def Let_def)
qed

text \<open>
  C5 (amended). In a store the data layer can reach, for a patient id that has a row and
  with no fault of the backend, deactivating twice succeeds both times (\<open>True\<close>), the
  row is still stored afterwards with \<open>is_active\<close> false and is found by the query by
  id alone that \<open>update\<close> and \<open>delete\<close> run, while \<open>PatientCRUD.get_by_id\<close>,
  which also filters on \<open>is_active\<close>, no longer returns it. \<open>delete\<close> reports
  \<open>False\<close> exactly when no row has the id.
\<close>

theorem deactivate_twice:
  assumes "reachable fk d" and "query_patient (SessionLocal d fk []) patient_id = Some p"
  shows "(\<exists>d1 d2 p2.
            PatientCRUD_delete (SessionLocal d fk []) now1 patient_id
              = (Inr True, SessionLocal d1 fk []) \<and>
            PatientCRUD_delete (SessionLocal d1 fk []) now2 patient_id
              = (Inr True, SessionLocal d2 fk []) \<and>
            length (d2 Patients) = length (d Patients) \<and>
            query_patient (SessionLocal d2 fk []) patient_id = Some p2 \<and>
            p2 ''is_active'' = PBool False \<and>
            PatientCRUD_get_by_id (SessionLocal d2 fk []) patient_id = None) \<and>
         (\<forall>db now other_id.
            fst (PatientCRUD_delete db now other_id) = Inr False \<longleftrightarrow>
            query_patient db other_id = None)"
proof -
  let ?f = "\<lambda>now x. if x ''id'' = PInt patient_id
             then x(''is_active'' := PBool False, ''updated_at'' := PDateTime now) else x"
  define rows1 where "rows1 = map (?f now1) (d Patients)"
  define d1 where "d1 = d(Patients := rows1)"
  define rows2 where "rows2 = map (?f now2) rows1"
  define d2 where "d2 = d1(Patients := rows2)"
  have d1P: "d1 Patients = rows1" and d2P: "d2 Patients = rows2"
    by (simp_all add: d1_def d2_def)
  have c: "consistent d" using assms(1) by (rule reachable_consistent)
  have f0: "find (\<lambda>p. p ''id'' = PInt patient_id) (d Patients) = Some p"
    using assms(2) by (simp add: query_patient_def)
  have del1: "PatientCRUD_delete (SessionLocal d fk []) now1 patient_id
              = (Inr True, SessionLocal d1 fk [])"
    using f0 by (simp add: PatientCRUD_delete_fresh [OF c] SessionLocal_statement_fails
        d1_def rows1_def)
  have "d1 = perform fk d (DeletePatient patient_id) now1 []"
    using del1 by (simp add: perform_def close_def)
  then have "reachable fk d1" using reachable.step [OF assms(1)] by simp
  then have c1: "consistent d1" by (rule reachable_consistent)
  have f1: "find (\<lambda>p. p ''id'' = PInt patient_id) rows1 = Some (?f now1 p)"
    unfolding rows1_def find_deactivated f0 by simp
  have del2: "PatientCRUD_delete (SessionLocal d1 fk []) now2 patient_id
              = (Inr True, SessionLocal d2 fk [])"
    using f1 by (simp add: PatientCRUD_delete_fresh [OF c1] SessionLocal_statement_fails
        d1P d2_def rows2_def)
  have f2': "find (\<lambda>p. p ''id'' = PInt patient_id) rows2 = Some (?f now2 (?f now1 p))"
    unfolding rows2_def find_deactivated f1 by simp
  have f2: "query_patient (SessionLocal d2 fk []) patient_id = Some (?f now2 (?f now1 p))"
    using f2' by (simp add: query_patient_def d2P)
  have pid: "p ''id'' = PInt patient_id" using find_id_Some [OF f0] by simp
  have inactive: "(?f now2 (?f now1 p)) ''is_active'' = PBool False" using pid by simp
  have gone: "PatientCRUD_get_by_id (SessionLocal d2 fk []) patient_id = None"
    by (simp add: PatientCRUD_get_by_id_def d2P rows2_def get_by_id_deactivated)
  have len: "length (d2 Patients) = length (d Patients)"
    by (simp add: d2P rows2_def rows1_def)
  have first: "\<exists>d1 d2 p2.
            PatientCRUD_delete (SessionLocal d fk []) now1 patient_id
              = (Inr True, SessionLocal d1 fk []) \<and>
            PatientCRUD_delete (SessionLocal d1 fk []) now2 patient_id
              = (Inr True, SessionLocal d2 fk []) \<and>
            length (d2 Patients) = length (d Patients) \<and>
            query_patient (SessionLocal d2 fk []) patient_id = Some p2 \<and>
            p2 ''is_active'' = PBool False \<and>
            PatientCRUD_get_by_id (SessionLocal d2 fk []) patient_id = None"
    using del1 del2 len f2 inactive gone by blast
  show ?thesis using first PatientCRUD_delete_not_found by blast
qed


lemma store_with_ada_has_1:
  "\<exists>p. query_patient (SessionLocal store_with_ada False []) 1 = Some p"
proof -
  have "PInt 1 \<in> set (map (\<lambda>p. p ''id'') (store_with_ada Patients))"
    using arg_cong [OF store_with_ada_rows(1), of "map fst"] by (simp add: comp_def)
  then have "find (\<lambda>p. p ''id'' = PInt 1) (store_with_ada Patients) \<noteq> None"
    by (auto simp: find_None_iff)
  then show ?thesis by (auto simp: query_patient_def)
qed

text \<open>The theorem at Ada's store: patient 1 deactivated on 4 and again on 5 November.\<close>

theorem deactivate_twice_witness:
  "reachable False store_with_ada \<and>
   (\<exists>p. query_patient (SessionLocal store_with_ada False []) 1 = Some p) \<and>
   (\<exists>d1 d2 p2.
      PatientCRUD_delete (SessionLocal store_with_ada False []) (DateTime 2026 11 4 0) 1
        = (Inr True, SessionLocal d1 False []) \<and>
      PatientCRUD_delete (SessionLocal d1 False []) (DateTime 2026 11 5 0) 1
        = (Inr True, SessionLocal d2 False []) \<and>
      length (d2 Patients) = length (store_with_ada Patients) \<and>
      query_patient (SessionLocal d2 False []) 1 = Some p2 \<and>
      p2 ''is_active'' = PBool False \<and>
      PatientCRUD_get_by_id (SessionLocal d2 False []) 1 = None)"
proof -
  obtain p where p: "query_patient (SessionLocal store_with_ada False []) 1 = Some p"
    using store_with_ada_has_1 by blast
  show ?thesis
    using deactivate_twice [OF store_with_ada_reachable p, of "DateTime 2026 11 4 0" "DateTime 2026 11 5 0"]
      store_with_ada_reachable store_with_ada_has_1 by blast
qed

lemmas delete_eval = PatientCRUD_delete_def query_patient_def referenced_def

text \<open>
  C5 as stated fails on the lookup: after Ada has been deactivated twice her row is still
  in the table, inactive, but \<open>PatientCRUD.get_by_id\<close> does not return it.
\<close>

theorem deactivate_twice_counterexample:
  "map (\<lambda>p. (p ''id'', p ''first_name'', p ''is_active''))
     (perform False (perform False store_with_ada (DeletePatient 1) (DateTime 2026 11 4 0) [])
        (DeletePatient 1) (DateTime 2026 11 5 0) [] Patients)
     = [(PInt 1, PStr ''Ada'', PBool False)] \<and>
   PatientCRUD_get_by_id
     (SessionLocal
        (perform False (perform False store_with_ada (DeletePatient 1) (DateTime 2026 11 4 0) [])
           (DeletePatient 1) (DateTime 2026 11 5 0) []) False []) 1 = None"
  by (simp add: store_with_ada_def ada_def store_eval delete_eval PatientCRUD_get_by_id_def)


text \<open>
  C6. Deactivating a patient in a reachable store rewrites nothing but that patient's
  \<open>is_active\<close> (to false) and \<open>updated_at\<close>: the patient table keeps every row,
  each other row and each other column as it was, every other table (consultations,
  symptoms, prescriptions, tests) is untouched, and the consultation history reads the same
  afterwards. When the call does not report success, the store is unchanged.
\<close>

theorem deactivate_frame:
  assumes "reachable fk d"
    and "PatientCRUD_delete (SessionLocal d fk fs) now patient_id = (res, db')"
  shows "(res = Inr True \<longrightarrow>
            close db' = d(Patients :=
              map (\<lambda>x. if x ''id'' = PInt patient_id
                        then x(''is_active'' := PBool False, ''updated_at'' := PDateTime now)
                        else x) (d Patients))) \<and>
         (res \<noteq> Inr True \<longrightarrow> close db' = d) \<and>
         length (close db' Patients) = length (d Patients) \<and>
         (\<forall>t. t \<noteq> Patients \<longrightarrow> close db' t = d t) \<and>
         ConsultationCRUD_get_recent (SessionLocal (close db') fk fs2) limit
           = ConsultationCRUD_get_recent (SessionLocal d fk fs2) limit \<and>
         ConsultationCRUD_get_by_patient (SessionLocal (close db') fk fs2) other_id skip limit
           = ConsultationCRUD_get_by_patient (SessionLocal d fk fs2) other_id skip limit \<and>
         ConsultationCRUD_get_by_id (SessionLocal (close db') fk fs2) consultation_id
           = ConsultationCRUD_get_by_id (SessionLocal d fk fs2) consultation_id"
proof -
  let ?rows = "map (\<lambda>x. if x ''id'' = PInt patient_id
                        then x(''is_active'' := PBool False, ''updated_at'' := PDateTime now)
                        else x) (d Patients)"
  have c: "consistent d" using assms(1) by (rule reachable_consistent)
  have "(res = Inr True \<and> close db' = d(Patients := ?rows)) \<or> (res \<noteq> Inr True \<and> close db' = d)"
    using assms(2) unfolding PatientCRUD_delete_fresh [OF c]
    by (auto simp: close_def split: option.splits if_splits)
  then show ?thesis
  proof
    assume a: "res = Inr True \<and> close db' = d(Patients := ?rows)"
    then have "close db' Consultations = d Consultations" by simp
    then show ?thesis
      using a by (simp add: ConsultationCRUD_get_recent_def ConsultationCRUD_get_by_patient_def
          ConsultationCRUD_get_by_id_def)
  next
    assume "res \<noteq> Inr True \<and> close db' = d"
    then show ?thesis by simp
  qed
qed

text \<open>The theorem at the store with Ada's consultation: she is deactivated, the
  consultation and its two symptoms stay.\<close>

theorem deactivate_frame_witness:
  "reachable False store_with_visit \<and>
   fst (PatientCRUD_delete (SessionLocal store_with_visit False []) (DateTime 2026 11 4 0) 1)
     = Inr True \<and>
   map (\<lambda>p. (p ''id'', p ''first_name'', p ''email'', p ''is_active'', p ''updated_at''))
     (close (snd (PatientCRUD_delete (SessionLocal store_with_visit False []) (DateTime 2026 11 4 0) 1))
        Patients)
     = [(PInt 1, PStr ''Ada'', PStr ''ada@example.org'', PBool False,
         PDateTime (DateTime 2026 11 4 0))] \<and>
   close (snd (PatientCRUD_delete (SessionLocal store_with_visit False []) (DateTime 2026 11 4 0) 1))
     Consultations = store_with_visit Consultations \<and>
   close (snd (PatientCRUD_delete (SessionLocal store_with_visit False []) (DateTime 2026 11 4 0) 1))
     Symptoms = store_with_visit Symptoms \<and>
   map (\<lambda>s. s ''symptom_name'') (store_with_visit Symptoms) = [PStr ''cough'', PStr ''fever''] \<and>
   ConsultationCRUD_get_recent
     (SessionLocal
        (close (snd (PatientCRUD_delete (SessionLocal store_with_visit False [])
                       (DateTime 2026 11 4 0) 1))) False []) 20
     = ConsultationCRUD_get_recent (SessionLocal store_with_visit False []) 20"
proof -
  obtain res db' where
    r: "PatientCRUD_delete (SessionLocal store_with_visit False []) (DateTime 2026 11 4 0) 1 = (res, db')"
    by (cases "PatientCRUD_delete (SessionLocal store_with_visit False []) (DateTime 2026 11 4 0) 1")
  note t = deactivate_frame [OF store_with_visit_reachable r, of "[]" 20]
  have "PInt 1 \<in> set (map (\<lambda>p. p ''id'') (store_with_visit Patients))"
    using arg_cong [OF store_with_visit_rows(1), of "map fst"] by (simp add: comp_def)
  then have "query_patient (SessionLocal store_with_visit False []) 1 \<noteq> None"
    by (auto simp: query_patient_def find_None_iff)
  then have "fst (PatientCRUD_delete (SessionLocal store_with_visit False []) (DateTime 2026 11 4 0) 1)
      \<noteq> Inr False"
    by (simp add: PatientCRUD_delete_not_found)
  moreover have "\<exists>b. res = Inr b"
    using r unfolding PatientCRUD_delete_fresh [OF reachable_consistent [OF store_with_visit_reachable]]
    by (auto simp: SessionLocal_statement_fails split: option.splits)
  ultimately have ok: "res = Inr True" using r by auto
  have rows: "map (\<lambda>p. (p ''id'', p ''first_name'', p ''email'', p ''is_active'', p ''updated_at''))
     (close db' Patients)
     = [(PInt 1, PStr ''Ada'', PStr ''ada@example.org'', PBool False, PDateTime (DateTime 2026 11 4 0))]"
    using t ok store_with_visit_rows(1) by (auto simp: comp_def)
  have names: "map (\<lambda>s. s ''symptom_name'') (store_with_visit Symptoms) = [PStr ''cough'', PStr ''fever'']"
    using arg_cong [OF store_with_visit_rows(3), of "map (\<lambda>(a, b, c, d). c)"] by (simp add: comp_def)
  from t have fr: "\<forall>t. t \<noteq> Patients \<longrightarrow> close db' t = store_with_visit t" by blast
  from t have gr: "ConsultationCRUD_get_recent (SessionLocal (close db') False []) 20
      = ConsultationCRUD_get_recent (SessionLocal store_with_visit False []) 20" by blast
  have sn: "snd (PatientCRUD_delete (SessionLocal store_with_visit False []) (DateTime 2026 11 4 0) 1) = db'"
    "fst (PatientCRUD_delete (SessionLocal store_with_visit False []) (DateTime 2026 11 4 0) 1) = res"
    using r by simp_all
  show ?thesis
    unfolding sn using store_with_visit_reachable ok rows fr gr names by simp
qed

section \<open>PatientCRUD.update in a fresh session\<close>

lemma fold_setattr_distinct:
  "distinct (map fst kwargs) \<Longrightarrow>
   fold (\<lambda>(key, value) self. if hasattr t key \<and> value \<noteq> PNone then self(key := value) else self)
     kwargs r c =
   (case map_of kwargs c of
      None \<Rightarrow> r c
    | Some v \<Rightarrow> if hasattr t c \<and> v \<noteq> PNone then v else r c)"
proof (induction kwargs arbitrary: r)
  case Nil
  then show ?case by simp
next
  case (Cons kv kwargs)
  obtain k v where kv: "kv = (k, v)" by (cases kv)
  show ?case
  proof (cases "c = k")
    case True
    then have "map_of kwargs c = None" using Cons.prems kv
      by (simp add: map_of_eq_None_iff)
    then show ?thesis using Cons kv True by simp
  next
    case False
    then show ?thesis using Cons kv by (simp split: option.splits)
  qed
qed

lemma find_by_id_consistent:
  assumes "consistent d" and "r \<in> set (d t)"
  shows "find (\<lambda>x. x ''id'' = r ''id'') (d t) = Some r"
proof (cases "find (\<lambda>x. x ''id'' = r ''id'') (d t)")
  case None
  then show ?thesis using assms(2) by (auto simp: find_None_iff)
next
  case (Some y)
  then have "y \<in> set (d t)" "y ''id'' = r ''id''" using find_id_Some [OF Some] by simp_all
  then have "y = r" by (rule consistent_same_id [OF assms(1) _ assms(2)])
  then show ?thesis using Some by simp
qed

lemma PatientCRUD_update_fresh:
  assumes "consistent d"
  shows "PatientCRUD_update (SessionLocal d fk fs) now patient_id kwargs =
     (case find (\<lambda>p. p ''id'' = PInt patient_id) (d Patients) of
        None \<Rightarrow> (Inr None, SessionLocal d fk fs)
      | Some loaded \<Rightarrow>
          (let obj = (fold (\<lambda>(key, value) self.
                              if hasattr Patients key \<and> value \<noteq> PNone then self(key := value)
                              else self) (parse_date_of_birth kwargs) loaded)
                     (''updated_at'' := PDateTime now)
           in if statement_fails (SessionLocal d fk fs)
                then (Inl OperationalError, SessionLocal d fk (tl fs))
              else case update_row fk d Patients (PInt patient_id) obj of
                     Inl e \<Rightarrow> (Inl e, SessionLocal d fk (tl fs))
                   | Inr d1 \<Rightarrow>
                       if statement_fails (SessionLocal d fk (tl fs))
                         then (Inl OperationalError, SessionLocal d fk (tl (tl fs)))
                       else (Inr (Some obj), SessionLocal d1 fk (tl (tl fs)))))"
proof (cases "find (\<lambda>p. p ''id'' = PInt patient_id) (d Patients)")
  case None
  then show ?thesis by (simp add: PatientCRUD_update_def query_patient_def)
next
  case (Some loaded)
  note l = find_id_Some [OF Some]
  define obj where "obj = (fold (\<lambda>(key, value) self.
                              if hasattr Patients key \<and> value \<noteq> PNone then self(key := value)
                              else self) (parse_date_of_birth kwargs) loaded)
                     (''updated_at'' := PDateTime now)"
  have lid: "loaded ''id'' = PInt patient_id" using l by simp
  have r: "refresh (SessionLocal d1 fk gs) Patients obj = (Inr obj, SessionLocal d1 fk gs)"
    if u: "update_row fk d Patients (PInt patient_id) obj = Inr d1" for d1 gs
  proof -
    have c1: "consistent d1" using consistent_update [OF assms u] .
    have dp: "d1 Patients = map (\<lambda>x. if x ''id'' = PInt patient_id then obj else x) (d Patients)"
      using update_row_Inr(1) [OF u] by simp
    have "(\<lambda>x. if x ''id'' = PInt patient_id then obj else x) loaded
            \<in> (\<lambda>x. if x ''id'' = PInt patient_id then obj else x) ` set (d Patients)"
      using l by (intro imageI) simp
    then have "obj \<in> set (d1 Patients)" using l dp by (simp del: if_image_distrib)
    then have "find (\<lambda>x. x ''id'' = obj ''id'') (d1 Patients) = Some obj"
      by (rule find_by_id_consistent [OF c1])
    then show ?thesis by (simp add: refresh_def)
  qed
  show ?thesis
  proof (cases "update_row fk d Patients (PInt patient_id) obj")
    case (Inl e)
    then show ?thesis using Some lid
      by (simp add: PatientCRUD_update_def query_patient_def Let_def commit_modify_fresh
          obj_def [symmetric])
  next
    case (Inr d1)
    then show ?thesis using Some lid r [OF Inr]
      by (simp add: PatientCRUD_update_def query_patient_def Let_def commit_modify_fresh
          obj_def [symmetric])
  qed
qed


section \<open>C7 and C10: what an update applies\<close>

lemma PatientCRUD_update_outcome:
  assumes "consistent d" and "distinct (map fst kwargs)"
    and "PatientCRUD_update (SessionLocal d fk fs) now patient_id kwargs = (res, db')"
  shows "(find (\<lambda>p. p ''id'' = PInt patient_id) (d Patients) = None \<and> res = Inr None \<and> close db' = d) \<or>
         (\<exists>p e. find (\<lambda>p. p ''id'' = PInt patient_id) (d Patients) = Some p \<and> res = Inl e \<and>
            (e = IntegrityError \<or> e = OperationalError \<and> fs \<noteq> []) \<and> close db' = d) \<or>
         (\<exists>p p'. find (\<lambda>p. p ''id'' = PInt patient_id) (d Patients) = Some p \<and>
            res = Inr (Some p') \<and> p' ''updated_at'' = PDateTime now \<and>
            (\<forall>c. c \<noteq> ''updated_at'' \<longrightarrow>
                 p' c = (case map_of (parse_date_of_birth kwargs) c of
                           None \<Rightarrow> p c
                         | Some v \<Rightarrow> if hasattr Patients c \<and> v \<noteq> PNone then v else p c)) \<and>
            close db' = d(Patients := map (\<lambda>x. if x ''id'' = PInt patient_id then p' else x)
                                        (d Patients)))"
proof (cases "find (\<lambda>p. p ''id'' = PInt patient_id) (d Patients)")
  case None
  then show ?thesis using assms(3) unfolding PatientCRUD_update_fresh [OF assms(1)]
    by (auto simp: close_def)
next
  case (Some p)
  define obj where "obj = (fold (\<lambda>(key, value) self.
                              if hasattr Patients key \<and> value \<noteq> PNone then self(key := value)
                              else self) (parse_date_of_birth kwargs) p)
                     (''updated_at'' := PDateTime now)"
  have dk: "distinct (map fst (parse_date_of_birth kwargs))"
    using assms(2) by (rule parse_date_of_birth_distinct)
  have o1: "obj ''updated_at'' = PDateTime now" by (simp add: obj_def)
  have o2: "\<forall>c. c \<noteq> ''updated_at'' \<longrightarrow>
                 obj c = (case map_of (parse_date_of_birth kwargs) c of
                           None \<Rightarrow> p c
                         | Some v \<Rightarrow> if hasattr Patients c \<and> v \<noteq> PNone then v else p c)"
    by (simp add: obj_def fold_setattr_distinct [OF dk])
  have eq: "(res, db') =
      (if statement_fails (SessionLocal d fk fs)
                then (Inl OperationalError, SessionLocal d fk (tl fs))
              else case update_row fk d Patients (PInt patient_id) obj of
                     Inl e \<Rightarrow> (Inl e, SessionLocal d fk (tl fs))
                   | Inr d1 \<Rightarrow>
                       if statement_fails (SessionLocal d fk (tl fs))
                         then (Inl OperationalError, SessionLocal d fk (tl (tl fs)))
                       else (Inr (Some obj), SessionLocal d1 fk (tl (tl fs))))"
    using assms(3) Some unfolding PatientCRUD_update_fresh [OF assms(1)]
    by (simp add: Let_def obj_def [symmetric])
  show ?thesis
  proof (cases "statement_fails (SessionLocal d fk fs)")
    case True
    then have "fs \<noteq> []" by (auto simp: SessionLocal_statement_fails)
    then show ?thesis using eq True Some by (simp add: close_def)
  next
    case False
    show ?thesis
    proof (cases "update_row fk d Patients (PInt patient_id) obj")
      case (Inl e)
      then have "e = IntegrityError" by (rule update_row_Inl)
      then show ?thesis using eq False Inl Some by (simp add: close_def)
    next
      case (Inr d1)
      note u = update_row_Inr(1) [OF Inr]
      show ?thesis
      proof (cases "statement_fails (SessionLocal d fk (tl fs))")
        case True
        then have "tl fs \<noteq> []" by (auto simp: SessionLocal_statement_fails)
        then have "fs \<noteq> []" by auto
        then show ?thesis using eq False Inr True Some by (simp add: close_def)
      next
        case f2: False
        have "res = Inr (Some obj)" "close db' = d1" using eq False Inr f2 by (simp_all add: close_def)
        then show ?thesis using Some o1 o2 u by blast
      qed
    qed
  qed
qed


text \<open>
  C7 (amended). For a reachable store and a partial update (a dictionary, so with distinct
  keys): \<open>PatientCRUD.update\<close> returns \<open>None\<close> (not found) exactly when no row,
  active or not, has the id. When it returns the patient, \<open>updated_at\<close> is the time of
  the call, every column supplied with a value other than \<open>None\<close> (the birth date as
  \<open>parse_date_of_birth\<close> leaves it) holds that value, every other column holds what it
  held, and the store differs from the old one in that row alone. When it raises (a
  constraint of the store, or a fault of the backend) or finds nothing, the store is unchanged.
\<close>

theorem update_applies_supplied_fields:
  assumes "reachable fk d" and "distinct (map fst kwargs)"
    and "PatientCRUD_update (SessionLocal d fk fs) now patient_id kwargs = (res, db')"
  shows "(res = Inr None \<longleftrightarrow> query_patient (SessionLocal d fk fs) patient_id = None) \<and>
         (\<forall>p'. res = Inr (Some p') \<longrightarrow>
            (\<exists>p. query_patient (SessionLocal d fk fs) patient_id = Some p \<and>
               p' ''updated_at'' = PDateTime now \<and>
               (\<forall>c. c \<noteq> ''updated_at'' \<longrightarrow>
                  p' c = (case map_of (parse_date_of_birth kwargs) c of
                            None \<Rightarrow> p c
                          | Some v \<Rightarrow> if hasattr Patients c \<and> v \<noteq> PNone then v else p c)) \<and>
               close db' = d(Patients := map (\<lambda>x. if x ''id'' = PInt patient_id then p' else x)
                                           (d Patients)))) \<and>
         ((\<forall>p'. res \<noteq> Inr (Some p')) \<longrightarrow> close db' = d)"
  using PatientCRUD_update_outcome [OF reachable_consistent [OF assms(1)] assms(2,3)]
  by (auto simp: query_patient_def)


lemmas update_eval = PatientCRUD_update_def query_patient_def referenced_def

text \<open>The theorem at Ada's store: her phone number and weight are updated.\<close>

theorem update_applies_supplied_fields_witness:
  "reachable False store_with_ada \<and>
   distinct (map fst [(''phone'', PStr ''555-0199''), (''weight'', PFloat 60)]) \<and>
   (case PatientCRUD_update (SessionLocal store_with_ada False []) (DateTime 2026 11 4 0) 1
           [(''phone'', PStr ''555-0199''), (''weight'', PFloat 60)] of
      (Inr (Some p'), db') \<Rightarrow>
        p' ''phone'' = PStr ''555-0199'' \<and> p' ''weight'' = PFloat 60 \<and>
        p' ''first_name'' = PStr ''Ada'' \<and> p' ''email'' = PStr ''ada@example.org'' \<and>
        p' ''updated_at'' = PDateTime (DateTime 2026 11 4 0) \<and>
        close db' = store_with_ada(Patients :=
          map (\<lambda>x. if x ''id'' = PInt 1 then p' else x) (store_with_ada Patients))
    | _ \<Rightarrow> False)"
proof -
  let ?kw = "[(''phone'', PStr ''555-0199''), (''weight'', PFloat 60)]"
  obtain res db' where r: "PatientCRUD_update (SessionLocal store_with_ada False [])
      (DateTime 2026 11 4 0) 1 ?kw = (res, db')"
    by (cases "PatientCRUD_update (SessionLocal store_with_ada False []) (DateTime 2026 11 4 0) 1 ?kw")
  have dk: "distinct (map fst ?kw)" by simp
  note t = update_applies_supplied_fields [OF store_with_ada_reachable dk r]
  have ev: "map_sum id (map_option (\<lambda>p. (p ''phone'', p ''weight'', p ''first_name'', p ''email'')))
              (fst (PatientCRUD_update (SessionLocal store_with_ada False [])
                      (DateTime 2026 11 4 0) 1 ?kw))
            = Inr (Some (PStr ''555-0199'', PFloat 60, PStr ''Ada'', PStr ''ada@example.org''))"
    by (simp add: store_with_ada_def ada_def store_eval update_eval)
  then obtain p' where p': "res = Inr (Some p')"
    and v: "p' ''phone'' = PStr ''555-0199''" "p' ''weight'' = PFloat 60"
      "p' ''first_name'' = PStr ''Ada''" "p' ''email'' = PStr ''ada@example.org''"
    using r by (cases res; cases "projr res") auto
  from t p' have u: "p' ''updated_at'' = PDateTime (DateTime 2026 11 4 0)"
    and c: "close db' = store_with_ada(Patients :=
          map (\<lambda>x. if x ''id'' = PInt 1 then p' else x) (store_with_ada Patients))"
    by auto
  show ?thesis using store_with_ada_reachable r p' v u c by simp
qed

text \<open>
  C7 as stated fails: the update \<open>phone=None\<close> has the field present, yet Ada's phone
  number is left as it was.
\<close>

theorem update_applies_supplied_fields_counterexample:
  "map_sum id (map_option (\<lambda>p. p ''phone''))
     (fst (PatientCRUD_update (SessionLocal store_with_ada False []) (DateTime 2026 11 4 0) 1
             [(''phone'', PNone)]))
   = Inr (Some (PStr ''555-0100''))"
  by (simp add: store_with_ada_def ada_def store_eval update_eval)


lemma parse_date_of_birth_value:
  "map_of (parse_date_of_birth kwargs) ''date_of_birth'' =
     (case map_of kwargs ''date_of_birth'' of
        Some (PStr s) \<Rightarrow> map_option PDateTime (strptime s)
      | other \<Rightarrow> other)"
  by (auto simp: parse_date_of_birth_def AList.update_conv' AList.delete_conv'
      split: option.splits pyval.splits)

lemma hasattr_date_of_birth: "hasattr Patients ''date_of_birth''"
  by (simp add: hasattr_def)

lemma hasattr_is_active: "hasattr Patients ''is_active''"
  by (simp add: hasattr_def)

text \<open>
  C10 (amended). When \<open>PatientCRUD.update\<close> (reachable store, distinct keys) returns
  the patient: a column that is not supplied, or supplied as \<open>None\<close>, keeps its value,
  so no stored field is ever cleared to null; a column of \<open>Patient\<close> supplied with
  another value takes it (whatever is supplied for \<open>updated_at\<close> is overwritten by the
  time of the call), except that a birth date given as a string is stored as the parsed
  datetime and is dropped, leaving the old birth date, when it does not parse; in
  particular \<open>is_active=True\<close> is applied, and the reactivated patient is returned
  again by \<open>get_by_id\<close>.
\<close>

theorem update_ignores_none:
  assumes "reachable fk d" and "distinct (map fst kwargs)"
    and "PatientCRUD_update (SessionLocal d fk fs) now patient_id kwargs = (Inr (Some p'), db')"
    and "query_patient (SessionLocal d fk fs) patient_id = Some p"
  shows "(\<forall>c. kwargs_get kwargs c = PNone \<and> c \<noteq> ''updated_at'' \<longrightarrow> p' c = p c) \<and>
         (\<forall>c. p c \<noteq> PNone \<longrightarrow> p' c \<noteq> PNone) \<and>
         (\<forall>c v. map_of kwargs c = Some v \<and> v \<noteq> PNone \<and> hasattr Patients c \<and>
                 c \<noteq> ''updated_at'' \<and> c \<noteq> ''date_of_birth'' \<longrightarrow> p' c = v) \<and>
         (\<forall>v. map_of kwargs ''date_of_birth'' = Some v \<and> v \<noteq> PNone \<longrightarrow>
              p' ''date_of_birth'' =
                (case v of
                   PStr s \<Rightarrow> (case strptime s of Some dt \<Rightarrow> PDateTime dt | None \<Rightarrow> p ''date_of_birth'')
                 | other \<Rightarrow> other)) \<and>
         (map_of kwargs ''is_active'' = Some (PBool True) \<longrightarrow>
            p' ''is_active'' = PBool True \<and>
            (kwargs_get kwargs ''id'' = PNone \<longrightarrow>
               PatientCRUD_get_by_id (SessionLocal (close db') fk fs2) patient_id = Some p'))"
proof -
  have f0: "find (\<lambda>p. p ''id'' = PInt patient_id) (d Patients) = Some p"
    using assms(4) by (simp add: query_patient_def)
  note t = PatientCRUD_update_outcome [OF reachable_consistent [OF assms(1)] assms(2,3)]
  from t f0 have cols: "\<And>c. c \<noteq> ''updated_at'' \<Longrightarrow>
       p' c = (case map_of (parse_date_of_birth kwargs) c of
                 None \<Rightarrow> p c
               | Some v \<Rightarrow> if hasattr Patients c \<and> v \<noteq> PNone then v else p c)"
    and up: "p' ''updated_at'' = PDateTime now"
    and st: "close db' = d(Patients := map (\<lambda>x. if x ''id'' = PInt patient_id then p' else x)
                                           (d Patients))"
    by auto
  have other: "p' c = (case map_of kwargs c of
                 None \<Rightarrow> p c
               | Some v \<Rightarrow> if hasattr Patients c \<and> v \<noteq> PNone then v else p c)"
    if "c \<noteq> ''updated_at''" "c \<noteq> ''date_of_birth''" for c
    using cols [OF that(1)] that(2) by (simp add: parse_date_of_birth_map_of)
  have dob: "p' ''date_of_birth'' =
        (case map_of kwargs ''date_of_birth'' of
           None \<Rightarrow> p ''date_of_birth''
         | Some PNone \<Rightarrow> p ''date_of_birth''
         | Some (PStr s) \<Rightarrow> (case strptime s of Some dt \<Rightarrow> PDateTime dt | None \<Rightarrow> p ''date_of_birth'')
         | Some v \<Rightarrow> v)"
    using cols [of "''date_of_birth''"]
    by (simp add: parse_date_of_birth_value hasattr_date_of_birth split: option.splits pyval.splits)
  have a: "\<forall>c. kwargs_get kwargs c = PNone \<and> c \<noteq> ''updated_at'' \<longrightarrow> p' c = p c"
  proof (intro allI impI)
    fix c assume h: "kwargs_get kwargs c = PNone \<and> c \<noteq> ''updated_at''"
    show "p' c = p c"
    proof (cases "c = ''date_of_birth''")
      case True
      then show ?thesis using dob h by (auto simp: kwargs_get_def split: option.splits)
    next
      case False
      then show ?thesis using other [of c] h by (auto simp: kwargs_get_def split: option.splits)
    qed
  qed
  have b: "\<forall>c. p c \<noteq> PNone \<longrightarrow> p' c \<noteq> PNone"
  proof (intro allI impI)
    fix c assume h: "p c \<noteq> PNone"
    show "p' c \<noteq> PNone"
    proof (cases "c = ''updated_at''")
      case True
      then show ?thesis using up by simp
    next
      case False
      then show ?thesis using cols [OF False] h by (simp split: option.splits)
    qed
  qed
  have c: "\<forall>c v. map_of kwargs c = Some v \<and> v \<noteq> PNone \<and> hasattr Patients c \<and>
                 c \<noteq> ''updated_at'' \<and> c \<noteq> ''date_of_birth'' \<longrightarrow> p' c = v"
    using other by simp
  have e: "\<forall>v. map_of kwargs ''date_of_birth'' = Some v \<and> v \<noteq> PNone \<longrightarrow>
              p' ''date_of_birth'' =
                (case v of
                   PStr s \<Rightarrow> (case strptime s of Some dt \<Rightarrow> PDateTime dt | None \<Rightarrow> p ''date_of_birth'')
                 | other \<Rightarrow> other)"
    using dob by (auto split: pyval.splits)
  have f: "p' ''is_active'' = PBool True \<and>
            (kwargs_get kwargs ''id'' = PNone \<longrightarrow>
               PatientCRUD_get_by_id (SessionLocal (close db') fk fs2) patient_id = Some p')"
    if act: "map_of kwargs ''is_active'' = Some (PBool True)"
  proof
    show active: "p' ''is_active'' = PBool True"
      using other [of "''is_active''"] act by (simp add: hasattr_is_active)
    show "kwargs_get kwargs ''id'' = PNone \<longrightarrow>
               PatientCRUD_get_by_id (SessionLocal (close db') fk fs2) patient_id = Some p'"
    proof
      assume "kwargs_get kwargs ''id'' = PNone"
      then have "p' ''id'' = p ''id''" using a by simp
      moreover have pin: "p \<in> set (d Patients)" and "p ''id'' = PInt patient_id"
        using find_id_Some [of "PInt patient_id" "d Patients" p] assms(4)
        by (simp_all add: query_patient_def)
      ultimately have id: "p' ''id'' = PInt patient_id" by simp
      have "close db' = perform fk d (UpdatePatient patient_id kwargs) now fs"
        using assms(3) by (simp add: perform_def)
      then have "reachable fk (close db')" using reachable.step [OF assms(1)] by simp
      then have c1: "consistent (close db')" by (rule reachable_consistent)
      have "(\<lambda>x. if x ''id'' = PInt patient_id then p' else x) p
              \<in> (\<lambda>x. if x ''id'' = PInt patient_id then p' else x) ` set (d Patients)"
        using pin by (rule imageI)
      then have mem: "p' \<in> set (close db' Patients)"
        using st \<open>p ''id'' = PInt patient_id\<close> by (simp del: if_image_distrib)
      have "find (\<lambda>x. x ''id'' = PInt patient_id \<and> x ''is_active'' = PBool True)
              (close db' Patients) = Some p'"
      proof (cases "find (\<lambda>x. x ''id'' = PInt patient_id \<and> x ''is_active'' = PBool True)
              (close db' Patients)")
        case None
        then show ?thesis using mem id active by (auto simp: find_None_iff)
      next
        case (Some y)
        then have "y \<in> set (close db' Patients)" "y ''id'' = p' ''id''"
          using id by (auto simp: find_Some_iff)
        then have "y = p'" by (rule consistent_same_id [OF c1 _ mem])
        then show ?thesis using Some by simp
      qed
      then show "PatientCRUD_get_by_id (SessionLocal (close db') fk fs2) patient_id = Some p'"
        by (simp add: PatientCRUD_get_by_id_def)
    qed
  qed
  show ?thesis using a b c e f by blast
qed


text \<open>The theorem at Ada's store after she was deactivated: \<open>is_active=True\<close>, with
  \<open>allergies=None\<close>, brings her back and leaves her allergies alone.\<close>

theorem update_ignores_none_witness:
  "reachable False (perform False store_with_ada (DeletePatient 1) (DateTime 2026 11 4 0) []) \<and>
   distinct (map fst [(''is_active'', PBool True), (''allergies'', PNone)]) \<and>
   (\<exists>p p' db'.
      PatientCRUD_update
        (SessionLocal (perform False store_with_ada (DeletePatient 1) (DateTime 2026 11 4 0) []) False [])
        (DateTime 2026 11 5 0) 1 [(''is_active'', PBool True), (''allergies'', PNone)]
        = (Inr (Some p'), db') \<and>
      query_patient
        (SessionLocal (perform False store_with_ada (DeletePatient 1) (DateTime 2026 11 4 0) []) False [])
        1 = Some p \<and>
      p ''is_active'' = PBool False \<and> p' ''is_active'' = PBool True \<and>
      p' ''allergies'' = p ''allergies'' \<and> p' ''first_name'' = PStr ''Ada'' \<and>
      PatientCRUD_get_by_id (SessionLocal (close db') False []) 1 = Some p')"
proof -
  let ?d = "perform False store_with_ada (DeletePatient 1) (DateTime 2026 11 4 0) []"
  let ?kw = "[(''is_active'', PBool True), (''allergies'', PNone)]"
  have reach: "reachable False ?d" by (rule reachable.step [OF store_with_ada_reachable])
  have dk: "distinct (map fst ?kw)" by simp
  obtain res db' where r: "PatientCRUD_update (SessionLocal ?d False []) (DateTime 2026 11 5 0) 1 ?kw
      = (res, db')"
    by (cases "PatientCRUD_update (SessionLocal ?d False []) (DateTime 2026 11 5 0) 1 ?kw")
  have "map_sum id (map_option (\<lambda>p. (p ''is_active'', p ''first_name'')))
          (fst (PatientCRUD_update (SessionLocal ?d False []) (DateTime 2026 11 5 0) 1 ?kw))
        = Inr (Some (PBool True, PStr ''Ada''))"
    by (simp add: store_with_ada_def ada_def store_eval update_eval delete_eval)
  then obtain p' where p': "res = Inr (Some p')" and n: "p' ''first_name'' = PStr ''Ada''"
    using r by (cases res; cases "projr res") auto
  have "map_option (\<lambda>p. p ''is_active'') (query_patient (SessionLocal ?d False []) 1)
          = Some (PBool False)"
    by (simp add: store_with_ada_def ada_def store_eval delete_eval)
  then obtain p where p: "query_patient (SessionLocal ?d False []) 1 = Some p"
    and i: "p ''is_active'' = PBool False"
    by auto
  note t = update_ignores_none [OF reach dk r [unfolded p'] p, of "[]"]
  have k: "kwargs_get ?kw ''allergies'' = PNone" "kwargs_get ?kw ''id'' = PNone"
    "map_of ?kw ''is_active'' = Some (PBool True)"
    by (simp_all add: kwargs_get_def)
  from t k have "p' ''allergies'' = p ''allergies''" "p' ''is_active'' = PBool True"
    "PatientCRUD_get_by_id (SessionLocal (close db') False []) 1 = Some p'"
    by auto
  then show ?thesis using reach dk r p' p i n by blast
qed

text \<open>
  C10 as stated fails on the birth date: \<open>date_of_birth="31/12/1990"\<close> is not
  \<open>None\<close> and names an attribute of \<open>Patient\<close>, yet it is not applied: Ada's birth
  date stays null.
\<close>

theorem update_ignores_none_counterexample:
  "map_sum id (map_option (\<lambda>p. p ''date_of_birth''))
     (fst (PatientCRUD_update (SessionLocal store_with_ada False []) (DateTime 2026 11 4 0) 1
             [(''date_of_birth'', PStr ''31/12/1990'')]))
   = Inr (Some PNone)"
  by (simp add: store_with_ada_def ada_def store_eval update_eval strptime_slashes AList.delete_eq)

section \<open>C9: search\<close>














section \<open>C2 and C3: creating a consultation\<close>

lemma symptom_stored:
  assumes "insert_row fk now d Symptoms (Symptom cid name sev) = Inr (s, d1)"
  shows "d1 = d(Symptoms := d Symptoms @ [s])" and "s ''symptom_name'' = PStr name"
    and "s ''consultation_id'' = cid" and "s ''severity'' = sev"
proof -
  note f = insert_row_Inr [OF assms]
  show "d1 = d(Symptoms := d Symptoms @ [s])" by (rule f(2))
  show "s ''symptom_name'' = PStr name" "s ''consultation_id'' = cid" "s ''severity'' = sev"
    unfolding f(1) by (simp_all add: with_defaults_other Symptom_def)
qed

lemma flush_new_symptoms:
  assumes "flush_new now (map (\<lambda>name. (Symptoms, Symptom cid name sev)) names) db = (Inr stored, db')"
  shows "txn db' = (txn db)(Symptoms := txn db Symptoms @ stored) \<and>
         map (\<lambda>r. r ''symptom_name'') stored = map PStr names \<and>
         (\<forall>r \<in> set stored. r ''consultation_id'' = cid \<and> r ''severity'' = sev) \<and>
         dirty db' = dirty db \<and> faults db' = drop (length names) (faults db)"
  using assms
proof (induction names arbitrary: db stored)
  case Nil
  then show ?case by auto
next
  case (Cons name names)
  have nf: "\<not> statement_fails db" using Cons.prems by (auto split: if_splits)
  obtain s d1 where i: "insert_row (foreign_keys db) now (txn db) Symptoms (Symptom cid name sev)
      = Inr (s, d1)"
    using Cons.prems nf by (auto split: sum.splits)
  obtain rest where r: "flush_new now (map (\<lambda>name. (Symptoms, Symptom cid name sev)) names)
      ((advance db)\<lparr>txn := d1\<rparr>) = (Inr rest, db')" and st: "stored = s # rest"
    using Cons.prems nf i by (auto split: sum.splits prod.splits)
  note ih = Cons.IH [OF r]
  note f = symptom_stored [OF i]
  have "txn db' = (txn db)(Symptoms := txn db Symptoms @ stored)"
    using ih f(1) st by (auto simp: fun_eq_iff)
  moreover have "faults db' = drop (length (name # names)) (faults db)"
    using ih by (simp add: drop_Suc)
  ultimately show ?case using ih f(2-4) st by simp
qed


lemma ConsultationCRUD_create_outcome:
  assumes "ConsultationCRUD_create (SessionLocal d fk fs) now patient_id symptoms kwargs = (res, db')"
  shows "(\<exists>e. res = Inl e \<and> close db' = d) \<or>
         (\<exists>c rows obj.
            res = Inr c \<and>
            construct Consultations ((''patient_id'', PInt patient_id) # kwargs) = Inr obj \<and>
            insert_row fk now d Consultations obj = Inr (c, d(Consultations := d Consultations @ [c])) \<and>
            close db' = d(Consultations := d Consultations @ [c], Symptoms := d Symptoms @ rows) \<and>
            map (\<lambda>r. r ''symptom_name'') rows = map PStr symptoms \<and>
            (\<forall>r \<in> set rows. r ''consultation_id'' = c ''id'' \<and>
                              r ''severity'' = kwargs_get kwargs ''severity''))"
proof (cases "''patient_id'' \<in> set (map fst kwargs)")
  case True
  then have "(res, db') = (Inl TypeError, SessionLocal d fk fs)"
    using assms by (simp add: ConsultationCRUD_create_def)
  then have "res = Inl TypeError" "close db' = d" by (simp_all add: close_def)
  then show ?thesis by blast
next
  case nokey: False
  show ?thesis
  proof (cases "construct Consultations ((''patient_id'', PInt patient_id) # kwargs)")
    case (Inl e)
    then have "(res, db') = (Inl e, SessionLocal d fk fs)"
      using assms nokey by (simp add: ConsultationCRUD_create_def)
    then have "res = Inl e" "close db' = d" by (simp_all add: close_def)
    then show ?thesis by blast
  next
    case (Inr obj)
    let ?S = "SessionLocal d fk fs"
    show ?thesis
    proof (cases "statement_fails ?S")
      case True
      then have "(res, db') = (Inl OperationalError, SessionLocal d fk (tl fs))"
        using assms nokey Inr by (simp add: ConsultationCRUD_create_def flush_add_fresh)
      then have "res = Inl OperationalError" "close db' = d" by (simp_all add: close_def)
      then show ?thesis by blast
    next
      case nf: False
      show ?thesis
      proof (cases "insert_row fk now d Consultations obj")
        case (Inl e)
        then have "(res, db') = (Inl e, SessionLocal d fk (tl fs))"
          using assms nokey Inr nf by (simp add: ConsultationCRUD_create_def flush_add_fresh)
        then have "res = Inl e" "close db' = d" by (simp_all add: close_def)
        then show ?thesis by blast
      next
        case ins: (Inr cd)
        obtain c d1 where cd: "cd = (c, d1)" by (cases cd)
        note i = ins [unfolded cd]
        note f = insert_row_Inr [OF i]
        define db1 where "db1 = (SessionLocal d fk (tl fs))\<lparr>txn := d1\<rparr>"
        define db2 where "db2 = fold (\<lambda>symptom_name s.
                                       add s Symptoms
                                         (Symptom (c ''id'') symptom_name
                                            (kwargs_get kwargs ''severity'')))
                                 symptoms db1"
        have fl: "flush now (add ?S Consultations obj) = (Inr [c], db1)"
          using nf i by (simp add: flush_add_fresh db1_def)
        have eq: "(res, db') = (case commit now db2 of
                          (Inl e, db3) \<Rightarrow> (Inl e, db3)
                        | (Inr stored, db3) \<Rightarrow> refresh db3 Consultations c)"
          using assms nokey Inr fl
          by (simp add: ConsultationCRUD_create_def Let_def db2_def [symmetric])
        have db2: "committed db2 = d" "txn db2 = d1" "dirty db2 = []"
          "new db2 = map (\<lambda>name. (Symptoms, Symptom (c ''id'') name (kwargs_get kwargs ''severity'')))
                       symptoms"
          by (simp_all add: db2_def fold_add_fields db1_def)
        show ?thesis
        proof (cases rule: commit_cases [of now db2])
          case (failed e db3)
          then have "res = Inl e" "close db' = d" using eq db2 by (simp_all add: close_def)
          then show ?thesis by blast
        next
          case (committed stored dbf db3)
          have "\<exists>dbn. flush_new now (new db2) (db2\<lparr>new := []\<rparr>) = (Inr stored, dbn) \<and>
                  txn dbf = txn dbn"
          proof (cases rule: flush_cases [of now db2])
            case (new_failed e db1)
            then show ?thesis using committed(1) by simp
          next
            case (dirty_failed stored db1 e db2)
            then show ?thesis using committed(1) by simp
          next
            case (flushed stored' dbn dbf')
            have "dirty dbn = []"
              using flush_new_symptoms [OF flushed(1) [unfolded db2(4)]] db2(3) by simp
            then have "dbf' = dbn\<lparr>dirty := []\<rparr>" using flushed(2) by simp
            then show ?thesis using flushed committed(1) by auto
          qed
          then obtain dbn where n: "flush_new now (new db2) (db2\<lparr>new := []\<rparr>) = (Inr stored, dbn)"
            and tn: "txn dbf = txn dbn" by blast
          note s = flush_new_symptoms [OF n [unfolded db2(4)]]
          have t3: "txn db3 = d1(Symptoms := d1 Symptoms @ stored)"
            using s tn committed(4) db2(2) by simp
          have c3: "committed db3 = d1(Symptoms := d1 Symptoms @ stored)"
            using s tn committed(4) db2(2) by simp
          have whole: "d1(Symptoms := d1 Symptoms @ stored)
                = d(Consultations := d Consultations @ [c], Symptoms := d Symptoms @ stored)"
            using f(2) by (auto simp: fun_eq_iff)
          have "c ''id'' \<notin> set (column_values ''id'' (d Consultations))"
            using f(4) by (simp add: unique_ok_def)
          then have "find (\<lambda>x. x ''id'' = c ''id'') (d Consultations @ [c]) = Some c"
            by (rule find_appended)
          then have "refresh db3 Consultations c = (Inr c, db3)"
            using t3 f(2) by (simp add: refresh_def)
          then have "res = Inr c" "db' = db3" using eq committed(3) by simp_all
          moreover have "insert_row fk now d Consultations obj
              = Inr (c, d(Consultations := d Consultations @ [c]))"
            using i f(2) by simp
          moreover have "close db' = d(Consultations := d Consultations @ [c],
                                       Symptoms := d Symptoms @ stored)"
            using \<open>db' = db3\<close> c3 whole by (simp add: close_def)
          ultimately show ?thesis using Inr s by blast
        qed
      qed
    qed
  qed
qed


subsection \<open>When the writes go through\<close>

lemma next_id_bound:
  "m \<le> fold (\<lambda>r m. case r ''id'' of PInt i \<Rightarrow> max m (i + 1) | _ \<Rightarrow> m) rows m \<and>
   (\<forall>r \<in> set rows. \<forall>i. r ''id'' = PInt i \<longrightarrow>
      i < fold (\<lambda>r m. case r ''id'' of PInt i \<Rightarrow> max m (i + 1) | _ \<Rightarrow> m) rows m)"
proof (induction rows arbitrary: m)
  case Nil
  then show ?case by simp
next
  case (Cons r rows)
  let ?m = "case r ''id'' of PInt i \<Rightarrow> max m (i + 1) | _ \<Rightarrow> m"
  have a: "m \<le> ?m" by (simp split: pyval.splits)
  have b: "\<forall>i. r ''id'' = PInt i \<longrightarrow> i < ?m" by auto
  show ?case using Cons [of ?m] a b by fastforce
qed

lemma next_id_fresh: "PInt (next_id rows) \<notin> set (column_values ''id'' rows)"
proof
  assume "PInt (next_id rows) \<in> set (column_values ''id'' rows)"
  then obtain r where r: "r \<in> set rows" "r ''id'' = PInt (next_id rows)"
    by (auto simp: column_values_def)
  then have "next_id rows < next_id rows"
    using next_id_bound [of 1 rows] unfolding next_id_def [symmetric] by blast
  then show False by simp
qed

lemma with_defaults_id:
  assumes "r ''id'' = PNone" and "''id'' \<notin> fst ` set (defaults now t)"
  shows "with_defaults now rows t r ''id'' = PInt (next_id rows)"
  using assms by (simp add: with_defaults_def Let_def fold_default_other)

lemma insert_symptom_succeeds:
  assumes "cid \<noteq> PNone" and "fk \<longrightarrow> cid \<in> set (column_values ''id'' (d Consultations))"
  shows "\<exists>s. insert_row fk now d Symptoms (Symptom cid name sev)
               = Inr (s, d(Symptoms := d Symptoms @ [s]))"
proof -
  let ?r = "with_defaults now (d Symptoms) Symptoms (Symptom cid name sev)"
  have id: "?r ''id'' = PInt (next_id (d Symptoms))"
    by (rule with_defaults_id) (simp_all add: Symptom_def blank_def)
  have v: "?r ''consultation_id'' = cid" "?r ''symptom_name'' = PStr name"
    by (simp_all add: with_defaults_other Symptom_def)
  have "not_null_ok Symptoms ?r" using id v assms(1) by (simp add: not_null_ok_def)
  moreover have "unique_ok Symptoms ?r (d Symptoms)"
    using id next_id_fresh [of "d Symptoms"] by (simp add: unique_ok_def)
  moreover have "fk \<longrightarrow> references_ok d Symptoms ?r"
    using v assms(2) by (simp add: references_ok_def)
  ultimately show ?thesis by (auto simp: insert_row_def Let_def)
qed

lemma flush_new_symptoms_succeeds:
  assumes "faults db = []" and "cid \<noteq> PNone"
    and "foreign_keys db \<longrightarrow> cid \<in> set (column_values ''id'' (txn db Consultations))"
  shows "\<exists>stored db'. flush_new now (map (\<lambda>name. (Symptoms, Symptom cid name sev)) names) db
           = (Inr stored, db')"
  using assms
proof (induction names arbitrary: db)
  case Nil
  then show ?case by simp
next
  case (Cons name names)
  have nf: "\<not> statement_fails db" using Cons.prems(1) by (simp add: statement_fails_def)
  obtain s where i: "insert_row (foreign_keys db) now (txn db) Symptoms (Symptom cid name sev)
      = Inr (s, (txn db)(Symptoms := txn db Symptoms @ [s]))"
    using insert_symptom_succeeds [of cid "foreign_keys db" "txn db" now name sev] Cons.prems(2,3)
    by blast
  let ?db = "(advance db)\<lparr>txn := (txn db)(Symptoms := txn db Symptoms @ [s])\<rparr>"
  have "\<exists>stored db'. flush_new now (map (\<lambda>name. (Symptoms, Symptom cid name sev)) names) ?db
           = (Inr stored, db')"
    using Cons.prems by (intro Cons.IH) simp_all
  then obtain rest db' where "flush_new now (map (\<lambda>name. (Symptoms, Symptom cid name sev)) names) ?db
           = (Inr rest, db')" by blast
  then have "flush_new now (map (\<lambda>name. (Symptoms, Symptom cid name sev)) (name # names)) db
           = (Inr (s # rest), db')"
    using nf i by simp
  then show ?case by blast
qed

lemma construct_first:
  "construct t ((k, v) # kwargs) = Inr obj \<Longrightarrow> k \<notin> fst ` set kwargs \<Longrightarrow> obj k = v"
  by (auto simp: construct_def fold_assign_other split: if_splits)

lemma insert_consultation_succeeds:
  assumes "construct Consultations ((''patient_id'', PInt patient_id) # kwargs) = Inr obj"
    and "''patient_id'' \<notin> fst ` set kwargs" and "''id'' \<notin> fst ` set kwargs"
    and "fk \<longrightarrow> PInt patient_id \<in> set (column_values ''id'' (d Patients))"
  shows "\<exists>c. insert_row fk now d Consultations obj
               = Inr (c, d(Consultations := d Consultations @ [c])) \<and>
             c ''id'' = PInt (next_id (d Consultations)) \<and> c ''patient_id'' = PInt patient_id"
proof -
  let ?r = "with_defaults now (d Consultations) Consultations obj"
  have p: "obj ''patient_id'' = PInt patient_id" using assms(1,2) by (rule construct_first)
  have "obj ''id'' = PNone" using construct_without [OF assms(1), of "''id''"] assms(3) by simp
  then have id: "?r ''id'' = PInt (next_id (d Consultations))"
    by (rule with_defaults_id) simp
  have v: "?r ''patient_id'' = PInt patient_id" using p by (simp add: with_defaults_keep)
  have "not_null_ok Consultations ?r" using id v by (simp add: not_null_ok_def)
  moreover have "unique_ok Consultations ?r (d Consultations)"
    using id next_id_fresh [of "d Consultations"] by (simp add: unique_ok_def)
  moreover have "fk \<longrightarrow> references_ok d Consultations ?r"
    using v assms(4) by (simp add: references_ok_def)
  ultimately have "insert_row fk now d Consultations obj
               = Inr (?r, d(Consultations := d Consultations @ [?r]))"
    by (auto simp: insert_row_def Let_def)
  then show ?thesis using id v by blast
qed


lemma ConsultationCRUD_create_succeeds:
  assumes "list_all (\<lambda>(key, value). hasattr Consultations key) kwargs"
    and "''patient_id'' \<notin> fst ` set kwargs" and "''id'' \<notin> fst ` set kwargs"
    and "fk \<longrightarrow> PInt patient_id \<in> set (column_values ''id'' (d Patients))"
  shows "\<exists>c db'. ConsultationCRUD_create (SessionLocal d fk []) now patient_id symptoms kwargs
                    = (Inr c, db')"
proof -
  let ?S = "SessionLocal d fk []"
  have "hasattr Consultations ''patient_id''" by (simp add: hasattr_def)
  then obtain obj where obj: "construct Consultations ((''patient_id'', PInt patient_id) # kwargs)
      = Inr obj"
    using assms(1) by (simp add: construct_def)
  obtain c where i: "insert_row fk now d Consultations obj
               = Inr (c, d(Consultations := d Consultations @ [c]))"
    and cid: "c ''id'' = PInt (next_id (d Consultations))"
    using insert_consultation_succeeds [of patient_id kwargs obj fk d now] obj assms(2-4) by blast
  define d1 where "d1 = d(Consultations := d Consultations @ [c])"
  define db1 where "db1 = (SessionLocal d fk [])\<lparr>txn := d1\<rparr>"
  define db2 where "db2 = fold (\<lambda>symptom_name s.
                                       add s Symptoms
                                         (Symptom (c ''id'') symptom_name
                                            (kwargs_get kwargs ''severity'')))
                                 symptoms db1"
  have nf: "\<not> statement_fails ?S" by (simp add: SessionLocal_statement_fails)
  have fl: "flush now (add ?S Consultations obj) = (Inr [c], db1)"
    using nf i by (simp add: flush_add_fresh db1_def d1_def)
  have nokey: "''patient_id'' \<notin> set (map fst kwargs)" using assms(2) by simp
  have eq: "ConsultationCRUD_create ?S now patient_id symptoms kwargs =
                     (case commit now db2 of
                          (Inl e, db3) \<Rightarrow> (Inl e, db3)
                        | (Inr stored, db3) \<Rightarrow> refresh db3 Consultations c)"
    using nokey obj fl by (simp add: ConsultationCRUD_create_def Let_def db2_def [symmetric])
  have db2: "committed db2 = d" "txn db2 = d1" "dirty db2 = []"
    "new db2 = map (\<lambda>name. (Symptoms, Symptom (c ''id'') name (kwargs_get kwargs ''severity'')))
                       symptoms"
    "faults db2 = []" "foreign_keys db2 = fk"
    by (simp_all add: db2_def fold_add_fields db1_def)
  have "c ''id'' \<in> set (column_values ''id'' (d1 Consultations))"
    by (simp add: d1_def column_values_def)
  then obtain stored dbn where n: "flush_new now (new db2) (db2\<lparr>new := []\<rparr>) = (Inr stored, dbn)"
    using flush_new_symptoms_succeeds [of "db2\<lparr>new := []\<rparr>" "c ''id''" now
        "kwargs_get kwargs ''severity''" symptoms] db2 cid
    by auto
  note s = flush_new_symptoms [OF n [unfolded db2(4)]]
  have dn: "dirty dbn = []" "faults dbn = []" using s db2 by simp_all
  have f2: "flush now db2 = (Inr stored, dbn\<lparr>dirty := []\<rparr>)"
    using n dn by (simp add: flush_def)
  have c2: "commit now db2 = (Inr stored, (advance (dbn\<lparr>dirty := []\<rparr>))\<lparr>committed := txn dbn\<rparr>)"
    using f2 dn by (simp add: commit_def statement_fails_def)
  have tn: "txn dbn Consultations = d Consultations @ [c]"
    using s db2(2) by (simp add: d1_def)
  have "c ''id'' \<notin> set (column_values ''id'' (d Consultations))"
    using cid next_id_fresh [of "d Consultations"] by simp
  then have "find (\<lambda>x. x ''id'' = c ''id'') (d Consultations @ [c]) = Some c"
    by (rule find_appended)
  then have "refresh ((advance (dbn\<lparr>dirty := []\<rparr>))\<lparr>committed := txn dbn\<rparr>) Consultations c
      = (Inr c, (advance (dbn\<lparr>dirty := []\<rparr>))\<lparr>committed := txn dbn\<rparr>)"
    using tn by (simp add: refresh_def)
  then show ?thesis using eq c2 by simp
qed


text \<open>
  C2. Whatever the backend does (foreign keys enforced or not, any statement failing),
  \<open>ConsultationCRUD.create\<close> with \<open>n\<close> symptom names either raises and leaves the
  store exactly as it was, or returns the consultation and the store has gained that
  consultation row and \<open>n\<close> symptom rows, one per name in the order given, each tied to
  the consultation and carrying its severity. With no fault, keywords that name columns
  (not \<open>id\<close>) and, where foreign keys are enforced, an existing patient, the call
  succeeds; with an empty list it then adds the consultation row alone.
\<close>

theorem create_consultation_atomic:
  assumes "ConsultationCRUD_create (SessionLocal d fk fs) now patient_id symptoms kwargs = (res, db')"
  shows "((\<exists>e. res = Inl e \<and> close db' = d) \<or>
          (\<exists>c rows.
             res = Inr c \<and> length rows = length symptoms \<and>
             map (\<lambda>r. r ''symptom_name'') rows = map PStr symptoms \<and>
             (\<forall>r \<in> set rows. r ''consultation_id'' = c ''id'' \<and>
                               r ''severity'' = kwargs_get kwargs ''severity'') \<and>
             close db' = d(Consultations := d Consultations @ [c],
                           Symptoms := d Symptoms @ rows))) \<and>
         (fs = [] \<and> list_all (\<lambda>(key, value). hasattr Consultations key) kwargs \<and>
          ''patient_id'' \<notin> fst ` set kwargs \<and> ''id'' \<notin> fst ` set kwargs \<and>
          (fk \<longrightarrow> PInt patient_id \<in> set (column_values ''id'' (d Patients)))
            \<longrightarrow> (\<exists>c. res = Inr c)) \<and>
         (symptoms = [] \<longrightarrow>
            (\<forall>c. res = Inr c \<longrightarrow> close db' = d(Consultations := d Consultations @ [c])))"
proof -
  note o = ConsultationCRUD_create_outcome [OF assms]
  have a: "(\<exists>e. res = Inl e \<and> close db' = d) \<or>
          (\<exists>c rows.
             res = Inr c \<and> length rows = length symptoms \<and>
             map (\<lambda>r. r ''symptom_name'') rows = map PStr symptoms \<and>
             (\<forall>r \<in> set rows. r ''consultation_id'' = c ''id'' \<and>
                               r ''severity'' = kwargs_get kwargs ''severity'') \<and>
             close db' = d(Consultations := d Consultations @ [c],
                           Symptoms := d Symptoms @ rows))"
    using o
  proof
    assume "\<exists>e. res = Inl e \<and> close db' = d"
    then show ?thesis by blast
  next
    assume "\<exists>c rows obj.
            res = Inr c \<and>
            construct Consultations ((''patient_id'', PInt patient_id) # kwargs) = Inr obj \<and>
            insert_row fk now d Consultations obj = Inr (c, d(Consultations := d Consultations @ [c])) \<and>
            close db' = d(Consultations := d Consultations @ [c], Symptoms := d Symptoms @ rows) \<and>
            map (\<lambda>r. r ''symptom_name'') rows = map PStr symptoms \<and>
            (\<forall>r \<in> set rows. r ''consultation_id'' = c ''id'' \<and>
                              r ''severity'' = kwargs_get kwargs ''severity'')"
    then obtain c rows where r: "res = Inr c"
      "close db' = d(Consultations := d Consultations @ [c], Symptoms := d Symptoms @ rows)"
      "map (\<lambda>r. r ''symptom_name'') rows = map PStr symptoms"
      "\<forall>r \<in> set rows. r ''consultation_id'' = c ''id'' \<and>
                              r ''severity'' = kwargs_get kwargs ''severity''"
      by blast
    have "length rows = length symptoms" using arg_cong [OF r(3), of length] by simp
    then show ?thesis using r by blast
  qed
  have b: "\<exists>c. res = Inr c"
    if "fs = [] \<and> list_all (\<lambda>(key, value). hasattr Consultations key) kwargs \<and>
          ''patient_id'' \<notin> fst ` set kwargs \<and> ''id'' \<notin> fst ` set kwargs \<and>
          (fk \<longrightarrow> PInt patient_id \<in> set (column_values ''id'' (d Patients)))"
    using ConsultationCRUD_create_succeeds [of kwargs fk patient_id d now symptoms] that assms
    by auto
  have c: "close db' = d(Consultations := d Consultations @ [c])"
    if "symptoms = []" "res = Inr c" for c
  proof -
    from a that(2) obtain rows where "length rows = length symptoms"
      "close db' = d(Consultations := d Consultations @ [c], Symptoms := d Symptoms @ rows)"
      by auto
    then show ?thesis using that(1) by (auto simp: fun_eq_iff)
  qed
  show ?thesis using a b c by blast
qed

text \<open>The theorem at Ada's consultation with two symptoms: once with no fault, once with
  the backend failing the third statement, the insert of the second symptom.\<close>

theorem create_consultation_atomic_witness:
  "\<not> isl (fst (ConsultationCRUD_create (SessionLocal store_with_ada False [])
                  (DateTime 2026 11 3 600) 1 [''cough'', ''fever''] [(''severity'', PStr ''Mild'')])) \<and>
   map (\<lambda>c. (c ''id'', c ''patient_id''))
     (close (snd (ConsultationCRUD_create (SessionLocal store_with_ada False [])
                    (DateTime 2026 11 3 600) 1 [''cough'', ''fever''] [(''severity'', PStr ''Mild'')]))
        Consultations)
     = [(PInt 1, PInt 1)] \<and>
   map (\<lambda>s. (s ''consultation_id'', s ''symptom_name'', s ''severity''))
     (close (snd (ConsultationCRUD_create (SessionLocal store_with_ada False [])
                    (DateTime 2026 11 3 600) 1 [''cough'', ''fever''] [(''severity'', PStr ''Mild'')]))
        Symptoms)
     = [(PInt 1, PStr ''cough'', PStr ''Mild''), (PInt 1, PStr ''fever'', PStr ''Mild'')] \<and>
   fst (ConsultationCRUD_create (SessionLocal store_with_ada False [False, False, True])
          (DateTime 2026 11 3 600) 1 [''cough'', ''fever''] [(''severity'', PStr ''Mild'')])
     = Inl OperationalError \<and>
   close (snd (ConsultationCRUD_create (SessionLocal store_with_ada False [False, False, True])
                 (DateTime 2026 11 3 600) 1 [''cough'', ''fever''] [(''severity'', PStr ''Mild'')]))
     = store_with_ada"
proof -
  let ?ok = "ConsultationCRUD_create (SessionLocal store_with_ada False [])
                  (DateTime 2026 11 3 600) 1 [''cough'', ''fever''] [(''severity'', PStr ''Mild'')]"
  let ?bad = "ConsultationCRUD_create (SessionLocal store_with_ada False [False, False, True])
                  (DateTime 2026 11 3 600) 1 [''cough'', ''fever''] [(''severity'', PStr ''Mild'')]"
  have v: "close (snd ?ok) = store_with_visit" by (simp add: store_with_visit_def perform_def)
  obtain res db' where r: "?ok = (res, db')" by (cases ?ok)
  have "\<exists>c. res = Inr c"
    using create_consultation_atomic [OF r] by (simp add: hasattr_def)
  then have ok: "\<not> isl (fst ?ok)" using r by auto
  obtain res2 db2 where r2: "?bad = (res2, db2)" by (cases ?bad)
  have f: "fst ?bad = Inl OperationalError"
    by (simp add: store_with_ada_def ada_def store_eval session_eval)
  then have "close db2 = store_with_ada"
    using create_consultation_atomic [OF r2] r2 by auto
  then have bad: "close (snd ?bad) = store_with_ada" using r2 by simp
  have rows: "map (\<lambda>c. (c ''id'', c ''patient_id'')) (store_with_visit Consultations) = [(PInt 1, PInt 1)]"
    "map (\<lambda>s. (s ''consultation_id'', s ''symptom_name'', s ''severity'')) (store_with_visit Symptoms)
       = [(PInt 1, PStr ''cough'', PStr ''Mild''), (PInt 1, PStr ''fever'', PStr ''Mild'')]"
    using arg_cong [OF store_with_visit_rows(2), of "map (\<lambda>(a, b, c). (a, b))"]
      arg_cong [OF store_with_visit_rows(3), of "map (\<lambda>(a, b, c, d). (b, c, d))"]
    by (simp_all add: comp_def)
  show ?thesis unfolding v using ok f bad rows by simp
qed

lemma insert_consultation_dangling:
  assumes "construct Consultations ((''patient_id'', PInt patient_id) # kwargs) = Inr obj"
    and "''patient_id'' \<notin> fst ` set kwargs"
    and "PInt patient_id \<notin> set (column_values ''id'' (d Patients))"
  shows "insert_row True now d Consultations obj = Inl IntegrityError"
proof (cases "insert_row True now d Consultations obj")
  case (Inl e)
  then show ?thesis using insert_row_Inl by blast
next
  case (Inr cd)
  obtain c d1 where cd: "cd = (c, d1)" by (cases cd)
  note f = insert_row_Inr [OF Inr [unfolded cd]]
  have "obj ''patient_id'' = PInt patient_id" using assms(1,2) by (rule construct_first)
  then have "c ''patient_id'' = PInt patient_id" unfolding f(1) by (simp add: with_defaults_keep)
  moreover have "references_ok d Consultations c" using f(5) by simp
  ultimately show ?thesis using assms(3) by (simp add: references_ok_def)
qed

text \<open>
  C3 (amended). On a backend that enforces the declared foreign key:
  \<open>ConsultationCRUD.create\<close> with a \<open>patient_id\<close> that no patient row carries, active
  or not, raises and persists nothing; the error is the store's \<open>IntegrityError\<close> unless
  a keyword was refused first (\<open>TypeError\<close>) or the backend failed. A \<open>patient_id\<close>
  that a row carries, active or not, is accepted.
\<close>

theorem create_consultation_foreign_key:
  assumes "ConsultationCRUD_create (SessionLocal d True fs) now patient_id symptoms kwargs = (res, db')"
  shows "(PInt patient_id \<notin> set (column_values ''id'' (d Patients)) \<longrightarrow>
            (\<exists>e. res = Inl e \<and>
                 (e = IntegrityError \<or> e = TypeError \<or> e = OperationalError \<and> fs \<noteq> [])) \<and>
            close db' = d) \<and>
         (PInt patient_id \<in> set (column_values ''id'' (d Patients)) \<and> fs = [] \<and>
          list_all (\<lambda>(key, value). hasattr Consultations key) kwargs \<and>
          ''patient_id'' \<notin> fst ` set kwargs \<and> ''id'' \<notin> fst ` set kwargs
            \<longrightarrow> (\<exists>c. res = Inr c))"
proof (intro conjI impI)
  assume "PInt patient_id \<in> set (column_values ''id'' (d Patients)) \<and> fs = [] \<and>
          list_all (\<lambda>(key, value). hasattr Consultations key) kwargs \<and>
          ''patient_id'' \<notin> fst ` set kwargs \<and> ''id'' \<notin> fst ` set kwargs"
  then show "\<exists>c. res = Inr c"
    using ConsultationCRUD_create_succeeds [of kwargs True patient_id d now symptoms] assms by auto
next
  assume no: "PInt patient_id \<notin> set (column_values ''id'' (d Patients))"
  note eq = assms [symmetric]
  have both: "(\<exists>e. res = Inl e \<and>
                 (e = IntegrityError \<or> e = TypeError \<or> e = OperationalError \<and> fs \<noteq> [])) \<and>
            close db' = d"
  proof (cases "''patient_id'' \<in> set (map fst kwargs)")
    case True
    then have "(res, db') = (Inl TypeError, SessionLocal d True fs)"
      using eq by (simp add: ConsultationCRUD_create_def)
    then have "res = Inl TypeError" "close db' = d" by (simp_all add: close_def)
    then show ?thesis by blast
  next
    case nokey: False
    show ?thesis
    proof (cases "construct Consultations ((''patient_id'', PInt patient_id) # kwargs)")
      case (Inl e)
      then have "e = TypeError" by (simp add: construct_def split: if_splits)
      moreover have "(res, db') = (Inl e, SessionLocal d True fs)"
        using eq nokey Inl by (simp add: ConsultationCRUD_create_def)
      ultimately have "res = Inl TypeError" "close db' = d" by (simp_all add: close_def)
      then show ?thesis by blast
    next
      case (Inr obj)
      have i: "insert_row True now d Consultations obj = Inl IntegrityError"
        using Inr nokey no by (intro insert_consultation_dangling [of patient_id kwargs]) simp_all
      show ?thesis
      proof (cases "statement_fails (SessionLocal d True fs)")
        case True
        then have "fs \<noteq> []" by (auto simp: SessionLocal_statement_fails)
        moreover have "(res, db') = (Inl OperationalError, SessionLocal d True (tl fs))"
          using eq nokey Inr True by (simp add: ConsultationCRUD_create_def flush_add_fresh)
        then have "res = Inl OperationalError" "close db' = d" by (simp_all add: close_def)
        ultimately show ?thesis by blast
      next
        case False
        then have "(res, db') = (Inl IntegrityError, SessionLocal d True (tl fs))"
          using eq nokey Inr i by (simp add: ConsultationCRUD_create_def flush_add_fresh)
        then have "res = Inl IntegrityError" "close db' = d" by (simp_all add: close_def)
        then show ?thesis by blast
      qed
    qed
  qed
  show "\<exists>e. res = Inl e \<and> (e = IntegrityError \<or> e = TypeError \<or> e = OperationalError \<and> fs \<noteq> [])"
    using both by blast
  show "close db' = d" using both by blast
qed


text \<open>The theorem at Ada's store with foreign keys enforced: patient 7 does not exist,
  patient 1 does.\<close>

theorem create_consultation_foreign_key_witness:
  "PInt 7 \<notin> set (column_values ''id'' (store_with_ada Patients)) \<and>
   fst (ConsultationCRUD_create (SessionLocal store_with_ada True []) (DateTime 2026 11 3 600) 7
          [''cough''] []) = Inl IntegrityError \<and>
   close (snd (ConsultationCRUD_create (SessionLocal store_with_ada True []) (DateTime 2026 11 3 600) 7
                 [''cough''] [])) = store_with_ada \<and>
   PInt 1 \<in> set (column_values ''id'' (store_with_ada Patients)) \<and>
   \<not> isl (fst (ConsultationCRUD_create (SessionLocal store_with_ada True []) (DateTime 2026 11 3 600) 1
                  [''cough''] []))"
proof -
  let ?no = "ConsultationCRUD_create (SessionLocal store_with_ada True []) (DateTime 2026 11 3 600) 7
          [''cough''] []"
  let ?yes = "ConsultationCRUD_create (SessionLocal store_with_ada True []) (DateTime 2026 11 3 600) 1
          [''cough''] []"
  have ids: "column_values ''id'' (store_with_ada Patients) = [PInt 1]"
    using arg_cong [OF store_with_ada_rows, of "map fst"] by (simp add: column_values_def comp_def)
  obtain res db' where r: "?no = (res, db')" by (cases ?no)
  note t = create_consultation_foreign_key [OF r]
  have c: "close db' = store_with_ada" using t ids by simp
  have "fst ?no = Inl IntegrityError"
    by (simp add: store_with_ada_def ada_def store_eval session_eval)
  then have e: "res = Inl IntegrityError" using r by simp
  obtain res1 db1 where r1: "?yes = (res1, db1)" by (cases ?yes)
  have "\<exists>c. res1 = Inr c"
    using create_consultation_foreign_key [OF r1] ids by (simp add: hasattr_def)
  then have y: "\<not> isl (fst ?yes)" using r1 by auto
  show ?thesis using ids r c e y by simp
qed

text \<open>
  C3 as stated fails where foreign keys are not enforced, as under the default engine: in
  an empty store, a consultation for patient 999 is created with its symptom.
\<close>

theorem create_consultation_foreign_key_counterexample:
  "\<not> isl (fst (ConsultationCRUD_create (SessionLocal empty_database False [])
                  (DateTime 2026 11 3 600) 999 [''cough''] [])) \<and>
   map (\<lambda>c. (c ''id'', c ''patient_id''))
     (close (snd (ConsultationCRUD_create (SessionLocal empty_database False [])
                    (DateTime 2026 11 3 600) 999 [''cough''] [])) Consultations)
     = [(PInt 1, PInt 999)] \<and>
   map (\<lambda>s. (s ''consultation_id'', s ''symptom_name''))
     (close (snd (ConsultationCRUD_create (SessionLocal empty_database False [])
                    (DateTime 2026 11 3 600) 999 [''cough''] [])) Symptoms)
     = [(PInt 1, PStr ''cough'')] \<and>
   empty_database Patients = []"
  by (simp add: store_eval session_eval)

end
